theory Spec2Isabelle
  imports Main "HOL-Library.Word" "HOL-Library.Signed_Division"
begin

section \<open>The hibernation agent (az-hibernate-agent.c)\<close>

text \<open>
  The agent is a single C file. Its functions are embedded here one by one, under the
  names the source gives them. The target is a 64-bit Linux (LP64): \<open>size_t\<close>,
  \<open>unsigned long\<close> and \<open>long\<close> have 64 bits, \<open>uint32_t\<close> and \<open>unsigned int\<close> have 32.

  \<open>log_fatal\<close> prints a message and calls \<open>exit(1)\<close>; it never returns. Every call of
  it is a branch of the model that yields \<open>Inl Exit_failure\<close>. Where the C code would
  leave the behaviour the language defines (a division by zero, a read outside the
  bytes of a buffer, a null pointer handed to \<open>strcmp\<close>), the model yields
  \<open>Inl Undefined_behaviour\<close>, and where a loop would never end it yields
  \<open>Inl Never_returns\<close>, so that no theorem below silently covers such a run.
  \<open>log_info\<close> only prints and is left out.
\<close>

datatype error = Exit_failure | Undefined_behaviour | Never_returns

type_synonym 'a result = "error + 'a"

type_synonym size_t = "64 word"
type_synonym uint32_t = "32 word"

subsection \<open>Sizing policy: \<open>swap_needed_size\<close>\<close>

definition GIGA_BYTES :: size_t where
  "GIGA_BYTES = push_bit 30 1"

definition MEGA_BYTES :: size_t where
  "MEGA_BYTES = push_bit 20 1"

definition swap_needed_size :: "size_t \<Rightarrow> size_t result" where
  "swap_needed_size phys_mem =
     (if phys_mem \<le> 2 * GIGA_BYTES then Inr (3 * phys_mem)
      else if phys_mem \<le> 8 * GIGA_BYTES then Inr (2 * phys_mem)
      else if phys_mem \<le> 64 * GIGA_BYTES then Inr ((3 * phys_mem) div 2)
      else if phys_mem \<le> 256 * GIGA_BYTES then Inr ((5 * phys_mem) div 4)
      else Inl Exit_failure)"

text \<open>One GiB as a natural number, for stating the tiers without wrap-around.\<close>

definition GiB :: nat where
  "GiB = 2 ^ 30"

subsection \<open>Block-offset resolver: \<open>get_swap_file_offset\<close>\<close>

text \<open>
  The two \<open>ioctl\<close> requests on the swap file's descriptor are inputs of the model:
  \<open>figetbsz\<close> is the answer of \<open>FIGETBSZ\<close> (\<open>None\<close> when the call fails) and
  \<open>fibmap i\<close> the answer of \<open>FIBMAP\<close> for logical block \<open>i\<close> (\<open>None\<close> when it
  fails). \<open>page_size\<close> is the \<open>long\<close> that \<open>sysconf(_SC_PAGE_SIZE)\<close> returns.
  The loop's local variables are the fields of \<open>scan\<close>.
\<close>

record scan =
  last' :: uint32_t
  first :: uint32_t
  num_contiguous_blocks :: uint32_t
  first_blknum :: uint32_t

definition scan_init :: scan where
  "scan_init = \<lparr> last' = 0, first = 0, num_contiguous_blocks = 0, first_blknum = - 1 \<rparr>"

function scan_blocks ::
  "(uint32_t \<Rightarrow> uint32_t option) \<Rightarrow> uint32_t \<Rightarrow> uint32_t \<Rightarrow> scan \<Rightarrow> scan result" where
  "scan_blocks fibmap blocks_per_page i s =
     (if i < blocks_per_page then
        (case fibmap i of
           None \<Rightarrow> Inl Exit_failure
         | Some blknum \<Rightarrow>
             let s1 = (if i = 0 then s\<lparr>first_blknum := blknum\<rparr> else s) in
             if last' s1 \<noteq> 0 \<and> blknum - last' s1 \<noteq> 1 then Inr s1
             else
               let s2 = (if first s1 = 0 then s1\<lparr>first := blknum\<rparr> else s1) in
               scan_blocks fibmap blocks_per_page (i + 1)
                 (s2\<lparr>last' := blknum,
                     num_contiguous_blocks := num_contiguous_blocks s2 + 1\<rparr>))
      else Inr s)"
  by pat_completeness auto
termination
proof (relation "measure (\<lambda>(fibmap, blocks_per_page, i, s). unat blocks_per_page - unat i)")
  show "wf (measure (\<lambda>(fibmap, blocks_per_page, i, s). unat blocks_per_page - unat i))"
    by simp
next
  fix fibmap :: "uint32_t \<Rightarrow> uint32_t option"
  fix blocks_per_page i :: uint32_t and s :: scan
  fix x2 x xa
  assume lt: "i < blocks_per_page"
  then have "unat i < unat blocks_per_page"
    by (simp add: word_less_nat_alt)
  moreover from lt have "unat (i + 1) = unat i + 1"
    by (metis (no_types, lifting) add.commute add_0 inc_i inc_le
        unat_plus_simple unsigned_0 unsigned_1 word_gt_0)
  ultimately show
    "((fibmap, blocks_per_page, i + 1,
        xa\<lparr>last' := x2, num_contiguous_blocks := num_contiguous_blocks xa + 1\<rparr>),
       (fibmap, blocks_per_page, i, s))
     \<in> measure (\<lambda>(fibmap, blocks_per_page, i, s). unat blocks_per_page - unat i)"
    by simp
qed

definition get_swap_file_offset ::
  "int \<Rightarrow> uint32_t option \<Rightarrow> (uint32_t \<Rightarrow> uint32_t option) \<Rightarrow> uint32_t result" where
  "get_swap_file_offset page_size figetbsz fibmap =
     (case figetbsz of
        None \<Rightarrow> Inl Exit_failure
      | Some blksize \<Rightarrow>
          if blksize = 0 then Inl Undefined_behaviour
          else
            let blocks_per_page = (word_of_int (page_size sdiv uint blksize) :: uint32_t) in
            (case scan_blocks fibmap blocks_per_page 0 scan_init of
               Inl e \<Rightarrow> Inl e
             | Inr s \<Rightarrow>
                 if page_size \<le> uint (num_contiguous_blocks s * blksize)
                 then Inr (first_blknum s)
                 else Inr (- 1)))"


declare scan_blocks.simps [simp del]

text \<open>
  A mapping with a hole in front of a run: \<open>FIBMAP\<close> answers 0 for logical block 0
  (the kernel's answer for a block that is not mapped) and 7, 8, 9 for the blocks after.
\<close>

definition fibmap_hole_then_run :: "uint32_t \<Rightarrow> uint32_t option" where
  "fibmap_hole_then_run i = (if i = 0 then Some 0 else Some (i + 6))"

subsection \<open>Bytes, C strings and buffers\<close>

text \<open>
  A \<open>char\<close> array is the list of its bytes, and a pointer into it is an index. A C
  string at index \<open>p\<close> is the bytes from \<open>p\<close> up to the first \<open>NUL\<close>. Reading at
  an index outside the list is outside the array: the model stops there with
  \<open>Undefined_behaviour\<close>. The bytes that a buffer on the stack holds before it is
  written to are an input of every function that declares one.
\<close>

type_synonym buf = "char list"

definition NUL :: char where
  "NUL = CHR 0x00"

definition newline :: char where
  "newline = CHR 0x0A"

text \<open>\<open>isspace\<close> in the C locale: space, and the control characters 9 to 13.\<close>

definition isspace :: "char \<Rightarrow> bool" where
  "isspace c = (c = CHR 0x20 \<or> c = CHR 0x09 \<or> c = CHR 0x0A \<or> c = CHR 0x0B
                \<or> c = CHR 0x0C \<or> c = CHR 0x0D)"

definition isdigit :: "char \<Rightarrow> bool" where
  "isdigit c = (48 \<le> (of_char c :: nat) \<and> (of_char c :: nat) \<le> 57)"

text \<open>
  \<open>while (P( *current)) current++\<close> over the bytes from \<open>current\<close> on: the number of
  bytes stepped over, \<open>None\<close> when the loop leaves the array.
\<close>

primrec scan_while :: "(char \<Rightarrow> bool) \<Rightarrow> char list \<Rightarrow> nat option" where
  "scan_while P [] = None"
| "scan_while P (c # cs) = (if P c then map_option Suc (scan_while P cs) else Some 0)"

text \<open>
  \<open>next_field\<close> writes a \<open>NUL\<close> over the first white-space byte at or after
  \<open>current\<close> and returns the index of the first byte after it that is not white
  space. Its first loop does not stop at a terminator: on a last field with no white
  space behind it the scan runs on through the bytes after the end of the string.
\<close>

definition next_field :: "buf \<Rightarrow> nat option \<Rightarrow> (buf \<times> nat option) result" where
  "next_field b current =
     (case current of
        None \<Rightarrow> Inr (b, None)
      | Some p \<Rightarrow>
          if length b \<le> p then Inl Undefined_behaviour
          else if b ! p = NUL then Inr (b, None)
          else
            (case scan_while (\<lambda>c. \<not> isspace c) (drop p b) of
               None \<Rightarrow> Inl Undefined_behaviour
             | Some n \<Rightarrow>
                 let b' = b[p + n := NUL] in
                 (case scan_while isspace (drop (p + n + 1) b') of
                    None \<Rightarrow> Inl Undefined_behaviour
                  | Some m \<Rightarrow> Inr (b', Some (p + n + 1 + m)))))"

text \<open>
  \<open>strncmp(b + p, s, strlen(s)) == 0\<close> for a string \<open>s\<close> without \<open>NUL\<close>: the
  comparison stops at the first byte that differs.
\<close>

primrec has_prefix_at :: "buf \<Rightarrow> nat \<Rightarrow> string \<Rightarrow> bool result" where
  "has_prefix_at b p [] = Inr True"
| "has_prefix_at b p (c # cs) =
     (if length b \<le> p then Inl Undefined_behaviour
      else if b ! p = c then has_prefix_at b (Suc p) cs
      else Inr False)"

text \<open>\<open>strcmp(b + p, s) == 0\<close> for a string \<open>s\<close> without \<open>NUL\<close>.\<close>

definition strcmp_eq :: "buf \<Rightarrow> nat \<Rightarrow> string \<Rightarrow> bool result" where
  "strcmp_eq b p s =
     (case has_prefix_at b p s of
        Inl e \<Rightarrow> Inl e
      | Inr False \<Rightarrow> Inr False
      | Inr True \<Rightarrow>
          if length b \<le> p + length s then Inl Undefined_behaviour
          else Inr (b ! (p + length s) = NUL))"

text \<open>The C string at index \<open>p\<close>, as \<open>strlen\<close> and \<open>memcpy\<close> read it.\<close>

definition cstring_at :: "buf \<Rightarrow> nat \<Rightarrow> string result" where
  "cstring_at b p =
     (if NUL \<in> set (drop p b) then Inr (takeWhile (\<lambda>c. c \<noteq> NUL) (drop p b))
      else Inl Undefined_behaviour)"

text \<open>The C string that starts a chunk of bytes, when a terminator follows the chunk.\<close>

definition cstr :: "string \<Rightarrow> string" where
  "cstr s = takeWhile (\<lambda>c. c \<noteq> NUL) s"

text \<open>\<open>strstr(haystack, needle) != NULL\<close>.\<close>

primrec starts_with :: "string \<Rightarrow> string \<Rightarrow> bool" where
  "starts_with s [] = True"
| "starts_with s (c # cs) = (case s of [] \<Rightarrow> False | d # ds \<Rightarrow> d = c \<and> starts_with ds cs)"

primrec strstr :: "string \<Rightarrow> string \<Rightarrow> bool" where
  "strstr [] needle = (needle = [])"
| "strstr (c # cs) needle = (starts_with (c # cs) needle \<or> strstr cs needle)"

subsection \<open>Reading a file line by line: \<open>fgets\<close>\<close>

text \<open>
  \<open>fgets(buffer, size, f)\<close> takes bytes from the rest of the file until it has taken a
  newline or \<open>size - 1\<close> bytes, stores them at the start of the buffer and a \<open>NUL\<close>
  behind them, and returns \<open>NULL\<close> at the end of the file. A file is the list of its
  bytes; \<open>fgets_chunk room s\<close> is the chunk taken and the rest of the file.
\<close>

fun fgets_chunk :: "nat \<Rightarrow> string \<Rightarrow> string \<times> string" where
  "fgets_chunk room [] = ([], [])"
| "fgets_chunk room (c # cs) =
     (if room = 0 then ([], c # cs)
      else if c = newline then ([c], cs)
      else (case fgets_chunk (room - 1) cs of (l, r) \<Rightarrow> (c # l, r)))"

lemma fgets_chunk_length:
  "fgets_chunk room s = (l, r) \<Longrightarrow> length s = length l + length r"
  by (induction room s arbitrary: l r rule: fgets_chunk.induct)
     (auto split: if_splits prod.splits)

lemma fgets_chunk_nonempty:
  "fgets_chunk room s = (l, r) \<Longrightarrow> 0 < room \<Longrightarrow> s \<noteq> [] \<Longrightarrow> l \<noteq> []"
  by (cases s) (auto split: if_splits prod.splits)

text \<open>All the chunks that successive calls return, for a buffer of \<open>bufsize\<close> bytes.\<close>

function fgets_all :: "nat \<Rightarrow> string \<Rightarrow> string list" where
  "fgets_all bufsize s =
     (if s = [] \<or> bufsize \<le> 1 then []
      else (case fgets_chunk (bufsize - 1) s of (l, r) \<Rightarrow> l # fgets_all bufsize r))"
  by pat_completeness auto
termination
proof (relation "measure (\<lambda>(bufsize, s). length s)")
  show "wf (measure (\<lambda>(bufsize, s). length s))" by simp
next
  fix bufsize :: nat and s x :: string and l r :: string
  assume a: "\<not> (s = [] \<or> bufsize \<le> 1)" and b: "(l, r) = fgets_chunk (bufsize - 1) s"
  from a b have "l \<noteq> []" using fgets_chunk_nonempty [of "bufsize - 1" s l r] by simp
  moreover from b have "length s = length l + length r"
    using fgets_chunk_length [of "bufsize - 1" s l r] by simp
  ultimately show "((bufsize, r), (bufsize, s)) \<in> measure (\<lambda>(bufsize, s). length s)"
    by (cases l) simp_all
qed

declare fgets_all.simps [simp del]

text \<open>The buffer after \<open>fgets\<close> has stored a chunk: the bytes behind the terminator stay.\<close>

definition store_chunk :: "buf \<Rightarrow> string \<Rightarrow> buf" where
  "store_chunk b l = l @ NUL # drop (length l + 1) b"

subsection \<open>Parsing numbers: \<open>parse_size_or_die\<close>\<close>

text \<open>
  \<open>strtoull(ptr, endptr, 10)\<close> skips white space, takes an optional sign and then the
  decimal digits. It returns 0 when there is no digit, the negated value modulo \<open>2^64\<close>
  after a minus sign, and sets \<open>errno\<close> when the digits exceed \<open>2^64 - 1\<close>. The result
  here is the value, whether \<open>errno\<close> was set, and the index where the parse ended.
  \<open>parse_size_or_die\<close> calls \<open>log_fatal\<close> when \<open>errno\<close> is set or, if the caller asked
  for the end pointer, when the byte there is not the expected one.
\<close>

primrec digits_value :: "char list \<Rightarrow> nat \<Rightarrow> (nat \<times> nat) option" where
  "digits_value [] acc = None"
| "digits_value (c # cs) acc =
     (if isdigit c
      then map_option (\<lambda>(v, n). (v, Suc n)) (digits_value cs (10 * acc + (of_char c - 48)))
      else Some (acc, 0))"

definition strtoull :: "buf \<Rightarrow> nat \<Rightarrow> (size_t \<times> bool \<times> nat) result" where
  "strtoull b p =
     (case scan_while isspace (drop p b) of
        None \<Rightarrow> Inl Undefined_behaviour
      | Some w \<Rightarrow>
          let q = p + w;
              neg = (b ! q = CHR ''-'');
              q1 = (if b ! q = CHR ''-'' \<or> b ! q = CHR ''+'' then q + 1 else q)
          in (case digits_value (drop q1 b) 0 of
                None \<Rightarrow> Inl Undefined_behaviour
              | Some (v, n) \<Rightarrow>
                  if n = 0 then Inr (0, False, p)
                  else if 2 ^ 64 \<le> v then Inr (- 1, True, q1 + n)
                  else Inr (if neg then - word_of_nat v else word_of_nat v, False, q1 + n)))"

definition parse_size_or_die :: "buf \<Rightarrow> nat \<Rightarrow> char \<Rightarrow> bool \<Rightarrow> (size_t \<times> nat) result" where
  "parse_size_or_die b p expected_end want_end =
     (case strtoull b p of
        Inl e \<Rightarrow> Inl e
      | Inr (parsed, errno_set, endp) \<Rightarrow>
          if errno_set then Inl Exit_failure
          else if want_end \<and> length b \<le> endp then Inl Undefined_behaviour
          else if want_end \<and> b ! endp \<noteq> expected_end then Inl Exit_failure
          else Inr (parsed, endp))"

subsection \<open>Swap file locator: \<open>find_swap_file\<close>\<close>

record swap_file =
  capacity :: size_t
  path :: string

definition swap_file_name :: string where
  "swap_file_name = ''/hibfile.sys''"

text \<open>
  One pass of the loop over the lines of \<open>/proc/swaps\<close>, on the buffer as \<open>fgets\<close>
  left it: \<open>Some\<close> of the swap file at \<open>break\<close>, \<open>None\<close> when the loop goes on with
  the next line. \<open>filename\<close> is index 0. \<open>type\<close> is compared with \<open>"file"\<close> before any
  call of \<open>next_field\<close> has put a terminator behind it.
\<close>

definition swaps_line :: "buf \<Rightarrow> size_t \<Rightarrow> (buf \<times> swap_file option) result" where
  "swaps_line b needed_size =
     (case next_field b (Some 0) of
        Inl e \<Rightarrow> Inl e
      | Inr (b1, None) \<Rightarrow> Inl Undefined_behaviour
      | Inr (b1, Some type_field) \<Rightarrow>
          (case strcmp_eq b1 type_field ''file'' of
             Inl e \<Rightarrow> Inl e
           | Inr False \<Rightarrow> Inr (b1, None)
           | Inr True \<Rightarrow>
               (case next_field b1 (Some type_field) of
                  Inl e \<Rightarrow> Inl e
                | Inr (b2, None) \<Rightarrow> Inl Exit_failure
                | Inr (b2, Some size_field) \<Rightarrow>
                    (case parse_size_or_die b2 size_field (CHR 0x20) False of
                       Inl e \<Rightarrow> Inl e
                     | Inr (size_as_int, endp) \<Rightarrow>
                         if size_as_int < needed_size then Inr (b2, None)
                         else
                           (case cstring_at b2 0 of
                              Inl e \<Rightarrow> Inl e
                            | Inr filename \<Rightarrow>
                                Inr (b2, Some \<lparr>capacity = size_as_int, path = filename\<rparr>))))))"

fun swaps_loop :: "buf \<Rightarrow> string list \<Rightarrow> size_t \<Rightarrow> swap_file option result" where
  "swaps_loop b [] needed_size = Inr None"
| "swaps_loop b (l # ls) needed_size =
     (case swaps_line (store_chunk b l) needed_size of
        Inl e \<Rightarrow> Inl e
      | Inr (b', Some out) \<Rightarrow> Inr (Some out)
      | Inr (b', None) \<Rightarrow> swaps_loop b' ls needed_size)"

text \<open>
  \<open>buffer0\<close> holds the bytes of \<open>buffer\<close> at entry (its length is \<open>sizeof(buffer)\<close>,
  1024 in the source), \<open>proc_swaps\<close> the contents of \<open>/proc/swaps\<close> (\<open>None\<close> when it
  cannot be opened) and \<open>st\<close> the answer of \<open>stat\<close> for the well-known path: \<open>None\<close>
  when it fails, else whether the file is a regular file, and its \<open>st_size\<close>. The
  function opens one file for reading and calls \<open>stat\<close>; it has no other effect, so its
  model has no trace of events. \<open>malloc\<close> is taken to succeed.
\<close>

definition find_swap_file ::
  "buf \<Rightarrow> string option \<Rightarrow> (bool \<times> size_t) option \<Rightarrow> size_t \<Rightarrow> swap_file option result" where
  "find_swap_file buffer0 proc_swaps st needed_size =
     (case proc_swaps of
        None \<Rightarrow> Inl Exit_failure
      | Some swaps \<Rightarrow>
          (case fgets_all (length buffer0) swaps of
             [] \<Rightarrow> Inl Exit_failure
           | header # ls \<Rightarrow>
               (case swaps_loop (store_chunk buffer0 header) ls needed_size of
                  Inl e \<Rightarrow> Inl e
                | Inr (Some out) \<Rightarrow> Inr (Some out)
                | Inr None \<Rightarrow>
                    (case st of
                       None \<Rightarrow> Inr None
                     | Some (is_reg, st_size) \<Rightarrow>
                         if \<not> is_reg then Inr None
                         else Inr (Some \<lparr>capacity = st_size, path = swap_file_name\<rparr>)))))"

subsection \<open>The kernel command line: \<open>is_kernel_cmdline_correct\<close>\<close>

text \<open>
  \<open>read_first_line_from_file\<close>: \<open>None\<close> stands for \<open>NULL\<close> (the file cannot be
  opened, or is empty). Otherwise the first chunk is in the buffer and the newline that
  \<open>strchr\<close> finds in it, if any, is overwritten by a terminator.
\<close>

definition read_first_line_from_file :: "buf \<Rightarrow> string option \<Rightarrow> buf option" where
  "read_first_line_from_file buffer contents =
     (case contents of
        None \<Rightarrow> None
      | Some s \<Rightarrow>
          if s = [] then None
          else
            (case fgets_chunk (length buffer - 1) s of
               (l, r) \<Rightarrow>
                 let b = store_chunk buffer l;
                     lf = length (takeWhile (\<lambda>c. c \<noteq> newline \<and> c \<noteq> NUL) b)
                 in Some (if lf < length b \<and> b ! lf = newline then b[lf := NUL] else b)))"

record cmdline_fields =
  resume_field :: "nat option"
  resume_offset_field :: "nat option"
  no_console_suspend_field :: "nat option"

text \<open>The body of the loop over the fields: the three \<open>strncmp\<close> tests, in order.\<close>

definition match_field :: "buf \<Rightarrow> nat \<Rightarrow> cmdline_fields \<Rightarrow> cmdline_fields result" where
  "match_field b field fs =
     (case has_prefix_at b field ''resume='' of
        Inl e \<Rightarrow> Inl e
      | Inr True \<Rightarrow> Inr (fs\<lparr>resume_field := Some (field + 7)\<rparr>)
      | Inr False \<Rightarrow>
          (case has_prefix_at b field ''resume_offset='' of
             Inl e \<Rightarrow> Inl e
           | Inr True \<Rightarrow> Inr (fs\<lparr>resume_offset_field := Some (field + 14)\<rparr>)
           | Inr False \<Rightarrow>
               (case has_prefix_at b field ''no_console_suspend='' of
                  Inl e \<Rightarrow> Inl e
                | Inr True \<Rightarrow> Inr (fs\<lparr>no_console_suspend_field := Some (field + 19)\<rparr>)
                | Inr False \<Rightarrow> Inr fs)))"

lemma scan_while_bound:
  "scan_while P xs = Some n \<Longrightarrow> n < length xs"
  by (induction xs arbitrary: n) (auto split: if_splits)

lemma next_field_advances:
  assumes "next_field b (Some p) = Inr (b', Some q)"
  shows "p < q \<and> q < length b \<and> length b' = length b"
proof -
  from assms obtain n m where
    n: "scan_while (\<lambda>c. \<not> isspace c) (drop p b) = Some n"
    and m: "scan_while isspace (drop (p + n + 1) (b[p + n := NUL])) = Some m"
    and q: "q = p + n + 1 + m" and b': "b' = b[p + n := NUL]"
    by (auto simp: next_field_def Let_def split: if_splits option.splits)
  from scan_while_bound [OF m] have "p + n + 1 + m < length b" by simp
  with q b' show ?thesis by simp
qed

text \<open>\<open>for (field = line; field; field = next_field(field))\<close>, entered at a field.\<close>

function scan_fields :: "buf \<Rightarrow> nat \<Rightarrow> cmdline_fields \<Rightarrow> (buf \<times> cmdline_fields) result" where
  "scan_fields b field fs =
     (case match_field b field fs of
        Inl e \<Rightarrow> Inl e
      | Inr fs' \<Rightarrow>
          (case next_field b (Some field) of
             Inl e \<Rightarrow> Inl e
           | Inr (b', nxt) \<Rightarrow>
               (case nxt of
                  None \<Rightarrow> Inr (b', fs')
                | Some q \<Rightarrow> scan_fields b' q fs')))"
  by pat_completeness auto
termination
proof (relation "measure (\<lambda>(b, field, fs). length b - field)")
  show "wf (measure (\<lambda>(b, field, fs). length b - field))" by simp
next
  fix b :: buf and field :: nat and fs fs' :: cmdline_fields
  fix x :: "buf \<times> nat option" and b' :: buf and nxt :: "nat option" and q :: nat
  assume "next_field b (Some field) = Inr x" and "(b', nxt) = x" and "nxt = Some q"
  then have "next_field b (Some field) = Inr (b', Some q)" by simp
  from next_field_advances [OF this]
  show "((b', q, fs'), (b, field, fs)) \<in> measure (\<lambda>(b, field, fs). length b - field)"
    by auto
qed

declare scan_fields.simps [simp del]

text \<open>Decimal digits, as \<open>printf\<close> writes a number with \<open>%zd\<close> and \<open>%lld\<close>.\<close>

fun decimal :: "nat \<Rightarrow> string" where
  "decimal n =
     (if n < 10 then [char_of (48 + n)]
      else decimal (n div 10) @ [char_of (48 + n mod 10)])"

declare decimal.simps [simp del]

definition print_signed :: "int \<Rightarrow> string" where
  "print_signed i = (if i < 0 then CHR ''-'' # decimal (nat (- i)) else decimal (nat i))"

definition PATH_MAX :: nat where
  "PATH_MAX = 4096"

text \<open>
  \<open>buffer0\<close> holds the bytes of \<open>buffer\<close> at entry and \<open>proc_cmdline\<close> the contents of
  \<open>/proc/cmdline\<close> (\<open>None\<close> when it cannot be opened). The three values are compared
  after the loop, when every field the loop has passed ends in a terminator.
\<close>

definition is_kernel_cmdline_correct ::
  "buf \<Rightarrow> string option \<Rightarrow> string \<Rightarrow> int \<Rightarrow> bool result" where
  "is_kernel_cmdline_correct buffer0 proc_cmdline dev_uuid resume_offset =
     (case read_first_line_from_file buffer0 proc_cmdline of
        None \<Rightarrow> Inr False
      | Some line \<Rightarrow>
          (case scan_fields line 0
                  \<lparr>resume_field = None, resume_offset_field = None,
                   no_console_suspend_field = None\<rparr> of
             Inl e \<Rightarrow> Inl e
           | Inr (b, fs) \<Rightarrow>
               (case resume_field fs of
                  None \<Rightarrow> Inr False
                | Some rf \<Rightarrow>
               (case resume_offset_field fs of
                  None \<Rightarrow> Inr False
                | Some rof \<Rightarrow>
               (case no_console_suspend_field fs of
                  None \<Rightarrow> Inr False
                | Some ncf \<Rightarrow>
                    let full_dev_path = ''/dev/disk/by-uuid/'' @ dev_uuid in
                    if PATH_MAX \<le> length full_dev_path then Inr False
                    else
                      (case strcmp_eq b rf full_dev_path of
                         Inl e \<Rightarrow> Inl e
                       | Inr False \<Rightarrow> Inr False
                       | Inr True \<Rightarrow>
                           (case strcmp_eq b rof (print_signed resume_offset) of
                              Inl e \<Rightarrow> Inl e
                            | Inr False \<Rightarrow> Inr False
                            | Inr True \<Rightarrow>
                                (case strcmp_eq b ncf ''1'' of
                                   Inl e \<Rightarrow> Inl e
                                 | Inr False \<Rightarrow> Inr False
                                 | Inr True \<Rightarrow> Inr True))))))))"

text \<open>
  The check as the specification words it, for comparison with the function above. The
  command line is a list of fields. Each of the three parameters has the value that
  follows its key in the last field that starts with the key; the line is correct when
  the three values are the device path built from the UUID, the offset in decimal
  digits, and \<open>1\<close>.
\<close>

definition cmdline_param :: "string list \<Rightarrow> string \<Rightarrow> string option" where
  "cmdline_param fs_list key =
     (case filter (\<lambda>f. starts_with f key) fs_list of
        [] \<Rightarrow> None
      | f # fs \<Rightarrow> Some (drop (length key) (last (f # fs))))"

definition spec_cmdline_correct :: "string list \<Rightarrow> string \<Rightarrow> int \<Rightarrow> bool" where
  "spec_cmdline_correct fs_list dev_uuid resume_offset =
     (cmdline_param fs_list ''resume='' = Some (''/dev/disk/by-uuid/'' @ dev_uuid)
      \<and> cmdline_param fs_list ''resume_offset='' = Some (print_signed resume_offset)
      \<and> cmdline_param fs_list ''no_console_suspend='' = Some ''1'')"

text \<open>
  A line as a list of fields, each with the white space that follows it; \<open>flat\<close> is
  the line, and \<open>terminated\<close> the same bytes once \<open>next_field\<close> has put a terminator
  behind every field.
\<close>

definition flat :: "(string \<times> string) list \<Rightarrow> string" where
  "flat bs = concat (map (\<lambda>(t, w). t @ w) bs)"

definition terminated :: "(string \<times> string) list \<Rightarrow> string" where
  "terminated bs = concat (map (\<lambda>(t, w). t @ NUL # tl w) bs)"

definition field_and_space :: "string \<times> string \<Rightarrow> bool" where
  "field_and_space b =
     (case b of (t, w) \<Rightarrow>
        t \<noteq> [] \<and> list_all (\<lambda>x. \<not> isspace x \<and> x \<noteq> NUL) t
        \<and> w \<noteq> [] \<and> list_all (\<lambda>x. isspace x \<and> x \<noteq> newline) w)"

text \<open>
  The same for what \<open>next_field\<close> takes for a field: bytes that are not white space, the
  first of them not a terminator, followed by white space.
\<close>

definition token_and_space :: "string \<times> string \<Rightarrow> bool" where
  "token_and_space b =
     (case b of (t, w) \<Rightarrow>
        t \<noteq> [] \<and> hd t \<noteq> NUL \<and> list_all (\<lambda>x. \<not> isspace x) t
        \<and> w \<noteq> [] \<and> list_all isspace w)"


subsection \<open>System calls, their answers and their trace\<close>

text \<open>
  The agent acts on the system through system calls and programs it spawns. A run of a
  function is modelled by the list of the calls it makes that can change the system, in
  order, and by its result. An \<open>event\<close> stands for the call, whether or not it
  succeeds; \<open>Write_file\<close> stands for \<open>fopen(path, "we")\<close> that succeeded, the bytes
  written and \<open>fclose\<close>. What the system answers is read from an \<open>env\<close>: one field
  for each question the code asks. Calls that only read (\<open>stat\<close>, \<open>access\<close>,
  \<open>statfs\<close>, reading a file) leave no event. \<open>malloc\<close> and \<open>realloc\<close> are taken
  to succeed (the code calls \<open>log_fatal\<close> when they fail); \<open>calloc\<close> is part of
  \<open>try_vspawn_and_wait\<close>, whose answer is a field; \<open>asprintf\<close> has a field of its own,
  because \<open>update_kernel_cmdline_params_for_grub\<close> returns \<open>false\<close> when it fails.
\<close>

datatype event =
    Swapoff string
  | Unlink string
  | Open_creat string
  | Fs_set_flags string nat nat
  | Ftruncate string size_t
  | Ioprio_set
  | Fallocate string size_t
  | Pwrite string nat
  | Fdatasync string
  | Spawn string "string list"
  | Chmod string
  | Swapon string
  | Write_file string string
  | Set_swap_area "32 word" "64 word"

datatype errno = EINVAL | EBUSY | ENOSPC | EPERM | EOPNOTSUPP | Other_errno

datatype fs_magic = EXT4_SUPER_MAGIC | BTRFS_SUPER_MAGIC | XFS_SUPER_MAGIC | Other_magic

record env =
  hibernation_enabled :: bool
  physical_memory :: "size_t result"
  sysconf_page_size :: int
  file_contents :: "string \<Rightarrow> string option"
  writable :: "string \<Rightarrow> bool"
  access_ok :: "string \<Rightarrow> bool"
  directory_empty :: "string \<Rightarrow> bool"
  exec_in_path :: "string \<Rightarrow> bool"
  spawn_ok :: "string \<Rightarrow> string list \<Rightarrow> bool"
  statfs_type :: "string \<Rightarrow> fs_magic option"
  swaps_buffer0 :: buf
  cmdline_buffer0 :: buf
  stat_swap_file_name :: "(bool \<times> size_t) option"
  swapoff_result :: "errno option"
  unlink_ok :: bool
  open_creat_ok :: bool
  getflags_ok :: bool
  ftruncate_result :: "errno option"
  fallocate_open_ok :: bool
  fallocate_result :: "errno option"
  pwrite_open_ok :: bool
  mounts_readable :: bool
  root_device_open :: "bool option"
  blkssizeget :: "nat option"
  root_f_bsize :: "nat option"
  pwrite_ok :: "nat \<Rightarrow> bool"
  uname_release :: "string option"
  chmod_ok :: bool
  swapon_result :: "errno option"
  snapshot_open_ok :: bool
  open_rdonly_ok :: "string \<Rightarrow> bool"
  fstat_answer :: "string \<Rightarrow> (bool \<times> 64 word) option"
  ioctl_figetbsz :: "string \<Rightarrow> uint32_t option"
  ioctl_fibmap :: "string \<Rightarrow> uint32_t \<Rightarrow> uint32_t option"
  set_swap_area_ok :: bool
  disk_uuid :: "string \<Rightarrow> string option result"
  systemctl_path :: "string option"
  is_hyperv :: bool
  asprintf_ok :: bool

text \<open>
  The fields, by the function that asks. \<open>main\<close>: \<open>hibernation_enabled\<close> is the answer
  of \<open>is_hibernation_enabled_for_vm\<close> and \<open>physical_memory\<close> that of the function of
  this name (it can end in \<open>log_fatal\<close>); \<open>swapoff_result\<close> and \<open>unlink_ok\<close> answer the
  two calls on a file that is too small. \<open>find_swap_file\<close>: \<open>swaps_buffer0\<close>,
  \<open>file_contents\<close> of \<open>/proc/swaps\<close>, \<open>stat_swap_file_name\<close>.
  \<open>create_swap_file\<close> and the functions it calls: \<open>open_creat_ok\<close>, \<open>getflags_ok\<close>
  (\<open>FS_IOC_GETFLAGS\<close>), \<open>ftruncate_result\<close>, \<open>fallocate_open_ok\<close> and
  \<open>fallocate_result\<close>, \<open>pwrite_open_ok\<close> and \<open>pwrite_ok\<close> (by offset),
  \<open>mounts_readable\<close>, \<open>root_device_open\<close> (\<open>None\<close> when no file system is mounted
  on \<open>/\<close>), \<open>blkssizeget\<close> and \<open>root_f_bsize\<close>, \<open>uname_release\<close>.
  \<open>ensure_swap_is_enabled\<close>: \<open>chmod_ok\<close>, \<open>swapon_result\<close>. \<open>update_swap_offset\<close>
  and \<open>get_swap_area\<close>: \<open>snapshot_open_ok\<close>, \<open>open_rdonly_ok\<close>, \<open>fstat_answer\<close>
  (whether the file is a regular file, and \<open>st_dev\<close>), \<open>sysconf_page_size\<close>,
  \<open>ioctl_figetbsz\<close>, \<open>ioctl_fibmap\<close>, \<open>set_swap_area_ok\<close>, \<open>disk_uuid\<close> (the answer of
  \<open>get_disk_uuid_for_file_path\<close>), \<open>cmdline_buffer0\<close>. \<open>exec_in_path\<close> is
  \<open>is_exec_in_path\<close>, \<open>spawn_ok\<close> the answer of \<open>try_vspawn_and_wait\<close>,
  \<open>statfs_type\<close> the \<open>f_type\<close> that \<open>statfs\<close> reports (\<open>None\<close> when it fails),
  \<open>access_ok\<close> is \<open>access(path, F_OK) == 0\<close>, \<open>directory_empty\<close> is
  \<open>is_directory_empty\<close>, \<open>systemctl_path\<close> what \<open>find_executable_in_path\<close> finds for
  \<open>systemctl\<close>, \<open>writable\<close> whether \<open>fopen(path, "we")\<close> succeeds, and
  \<open>asprintf_ok\<close> whether \<open>asprintf\<close> returns the argument string.
\<close>

type_synonym 'a run = "event list \<times> 'a result"

definition ret :: "'a \<Rightarrow> 'a run" where
  "ret a = ([], Inr a)"

definition log_fatal :: "'a run" where
  "log_fatal = ([], Inl Exit_failure)"

definition lift :: "'a result \<Rightarrow> 'a run" where
  "lift r = ([], r)"

definition emit :: "event \<Rightarrow> unit run" where
  "emit e = ([e], Inr ())"

definition bind_run :: "'a run \<Rightarrow> ('a \<Rightarrow> 'b run) \<Rightarrow> 'b run" where
  "bind_run m f =
     (case m of
        (es, Inl e) \<Rightarrow> (es, Inl e)
      | (es, Inr a) \<Rightarrow> (case f a of (es', r) \<Rightarrow> (es @ es', r)))"

definition then_run :: "unit run \<Rightarrow> 'b run \<Rightarrow> 'b run" where
  "then_run m n = bind_run m (\<lambda>_. n)"

subsection \<open>Spawning programs\<close>

definition try_spawn_and_wait :: "env \<Rightarrow> string \<Rightarrow> string list \<Rightarrow> bool run" where
  "try_spawn_and_wait env program args =
     then_run (emit (Spawn program args)) (ret (spawn_ok env program args))"

definition spawn_and_wait :: "env \<Rightarrow> string \<Rightarrow> string list \<Rightarrow> unit run" where
  "spawn_and_wait env program args =
     bind_run (try_spawn_and_wait env program args)
       (\<lambda>spawned. if spawned then ret () else log_fatal)"

subsection \<open>Swap file allocator: \<open>create_swap_file\<close>\<close>

definition FS_NOCOW_FL :: nat where "FS_NOCOW_FL = 0x00800000"
definition FS_NOCOMP_FL :: nat where "FS_NOCOMP_FL = 0x00000400"
definition FS_COMPR_FL :: nat where "FS_COMPR_FL = 0x00000004"

definition fs_set_flags :: "env \<Rightarrow> string \<Rightarrow> nat \<Rightarrow> nat \<Rightarrow> unit run" where
  "fs_set_flags env p flags_to_set flags_to_reset =
     (if getflags_ok env then emit (Fs_set_flags p flags_to_set flags_to_reset) else ret ())"

definition is_file_on_fs :: "env \<Rightarrow> string \<Rightarrow> fs_magic \<Rightarrow> bool" where
  "is_file_on_fs env p magic = (statfs_type env p = Some magic)"

definition create_swap_file_with_size :: "env \<Rightarrow> string \<Rightarrow> size_t \<Rightarrow> bool run" where
  "create_swap_file_with_size env p sz =
     then_run (emit (Open_creat p))
       (if \<not> open_creat_ok env then ret False
        else
          then_run (fs_set_flags env p FS_NOCOW_FL 0)
         (then_run (fs_set_flags env p FS_NOCOMP_FL FS_COMPR_FL)
            (if is_file_on_fs env p XFS_SUPER_MAGIC then ret True
             else then_run (emit (Ftruncate p sz)) (ret (ftruncate_result env = None)))))"

definition try_zeroing_out_with_fallocate :: "env \<Rightarrow> string \<Rightarrow> size_t \<Rightarrow> bool run" where
  "try_zeroing_out_with_fallocate env p sz =
     (if \<not> fallocate_open_ok env then ret False
      else
        then_run (emit (Fallocate p sz))
          (case fallocate_result env of
             None \<Rightarrow> ret True
           | Some e \<Rightarrow> if e = ENOSPC then log_fatal else log_fatal))"

definition determine_block_size_for_root_fs :: "env \<Rightarrow> nat result" where
  "determine_block_size_for_root_fs env =
     (if \<not> mounts_readable env then Inl Exit_failure
      else
        (case root_device_open env of
           Some False \<Rightarrow> Inl Exit_failure
         | opened \<Rightarrow>
             let sector_size =
                   (case opened of
                      None \<Rightarrow> 0
                    | Some _ \<Rightarrow> (case blkssizeget env of None \<Rightarrow> 0 | Some v \<Rightarrow> v))
             in if sector_size \<noteq> 0
                then (case root_f_bsize env of
                        None \<Rightarrow> Inl Exit_failure
                      | Some f_bsize \<Rightarrow>
                          Inr (if sector_size < f_bsize then f_bsize else sector_size))
                else Inl Exit_failure))"

text \<open>
  The loop of \<open>try_zero_out_with_write\<close>: one \<open>pwrite\<close> of the four-byte pattern at
  every multiple of the block size below the needed size. With a block size of 0 the C
  loop would never end; \<open>determine_block_size_for_root_fs\<close> never returns 0.
\<close>

function write_pattern :: "env \<Rightarrow> string \<Rightarrow> nat \<Rightarrow> nat \<Rightarrow> nat \<Rightarrow> bool run" where
  "write_pattern env p block_size needed_size ofs =
     (if block_size = 0 then ([], Inl Never_returns)
      else if ofs < needed_size then
        (if pwrite_ok env ofs
         then (case write_pattern env p block_size needed_size (ofs + block_size) of
                 (es, r) \<Rightarrow> (Pwrite p ofs # es, r))
         else ([Pwrite p ofs], Inr False))
      else ([], Inr True))"
  by pat_completeness auto
termination
  by (relation "measure (\<lambda>(env, p, block_size, needed_size, ofs). needed_size - ofs)") auto

declare write_pattern.simps [simp del]

definition try_zero_out_with_write :: "env \<Rightarrow> string \<Rightarrow> size_t \<Rightarrow> bool run" where
  "try_zero_out_with_write env p needed_size =
     (if \<not> pwrite_open_ok env then ret False
      else
        bind_run (lift (determine_block_size_for_root_fs env))
          (\<lambda>block_size.
             bind_run (write_pattern env p block_size (unat needed_size) 0)
               (\<lambda>written.
                  if written then then_run (emit (Fdatasync p)) (ret True)
                  else ret False)))"

text \<open>
  \<open>utsbuf.release[i]\<close>: the bytes behind the terminator are taken as \<open>NUL\<close>. Only an
  empty release string makes the code read one; the run then ends in \<open>log_fatal\<close>
  whatever that byte holds, because \<open>release[0]\<close> is the terminator, below \<open>'5'\<close>.
  \<open>char\<close> is signed.
\<close>

definition char_at :: "string \<Rightarrow> nat \<Rightarrow> char" where
  "char_at s i = (if i < length s then s ! i else NUL)"

definition signed_char :: "char \<Rightarrow> int" where
  "signed_char c = (if (of_char c :: int) < 128 then of_char c else of_char c - 256)"

definition perform_fs_specific_checks :: "env \<Rightarrow> string \<Rightarrow> unit run" where
  "perform_fs_specific_checks env p =
     (if is_file_on_fs env p EXT4_SUPER_MAGIC \<and> exec_in_path env ''e4defrag''
      then bind_run (try_spawn_and_wait env ''e4defrag'' [p]) (\<lambda>_. ret ())
      else if is_file_on_fs env p BTRFS_SUPER_MAGIC then
        (case uname_release env of
           None \<Rightarrow> log_fatal
         | Some release \<Rightarrow>
             if char_at release 1 \<noteq> CHR ''.'' then log_fatal
             else if signed_char (char_at release 0) < signed_char (CHR ''5'') then log_fatal
             else if exec_in_path env ''btrfs''
             then bind_run (try_spawn_and_wait env ''btrfs'' [''filesystem'', ''defragment'', p])
                    (\<lambda>_. ret ())
             else ret ())
      else if is_file_on_fs env p XFS_SUPER_MAGIC \<and> exec_in_path env ''xfs_fsr''
      then bind_run (try_spawn_and_wait env ''xfs_fsr'' [''-v'', p]) (\<lambda>_. ret ())
      else ret ())"

text \<open>
  \<open>create_swap_file\<close>. The condition
  \<open>swap_on_xfs || !try_zeroing_out_with_fallocate(...)\<close> calls the fast method only
  when the file is not on XFS.
\<close>

definition create_swap_file :: "env \<Rightarrow> size_t \<Rightarrow> swap_file run" where
  "create_swap_file env needed_size =
     bind_run (create_swap_file_with_size env swap_file_name needed_size)
       (\<lambda>created.
          if \<not> created then log_fatal
          else
            then_run (emit Ioprio_set)
           (let swap_on_xfs = is_file_on_fs env swap_file_name XFS_SUPER_MAGIC in
            bind_run (if swap_on_xfs then ret True
                      else bind_run (try_zeroing_out_with_fallocate env swap_file_name needed_size)
                             (\<lambda>zeroed. ret (\<not> zeroed)))
              (\<lambda>slow.
                 then_run
                   (if slow
                    then bind_run (try_zero_out_with_write env swap_file_name needed_size)
                           (\<lambda>written. if \<not> written then log_fatal else ret ())
                    else ret ())
                  (then_run (perform_fs_specific_checks env swap_file_name)
                  (then_run (spawn_and_wait env ''mkswap'' [swap_file_name])
                     (ret \<lparr>capacity = needed_size, path = swap_file_name\<rparr>))))))"

subsection \<open>Resume parameter reconciler\<close>

record resume_swap_area =
  offset :: "64 word"
  dev :: "32 word"

text \<open>
  \<open>get_swap_area\<close> opens the swap file read-only and asks for its status and its
  block mapping; it changes nothing, so it has a result and no trace. The \<open>uint32_t\<close>
  offset is stored in the signed 64-bit field \<open>offset\<close>, and the 64-bit \<open>st_dev\<close> in
  the 32-bit field \<open>dev\<close>.
\<close>

definition get_swap_area :: "env \<Rightarrow> swap_file \<Rightarrow> resume_swap_area result" where
  "get_swap_area env swap =
     (if \<not> open_rdonly_ok env (path swap) then Inl Exit_failure
      else
        (case fstat_answer env (path swap) of
           None \<Rightarrow> Inl Exit_failure
         | Some (is_reg, st_dev) \<Rightarrow>
             if \<not> is_reg then Inl Exit_failure
             else
               (case get_swap_file_offset (sysconf_page_size env)
                       (ioctl_figetbsz env (path swap)) (ioctl_fibmap env (path swap)) of
                  Inl e \<Rightarrow> Inl e
                | Inr ofs \<Rightarrow>
                    if ofs = - 1 then Inl Exit_failure
                    else Inr \<lparr>offset = ucast ofs, dev = ucast st_dev\<rparr>)))"

definition find_grub_cfg_path :: "env \<Rightarrow> string option" where
  "find_grub_cfg_path env =
     (if access_ok env ''/boot/grub2/grub.cfg'' then Some ''/boot/grub2/grub.cfg''
      else if access_ok env ''/boot/grub/grub.cfg'' then Some ''/boot/grub/grub.cfg''
      else None)"

text \<open>
  The rewrite of the GRUB settings file. \<open>strip_managed_block\<close> is the loop over the
  chunks that \<open>fgets\<close> returns, with the flag \<open>in_az_hibernate_agent_block\<close>; it
  yields the bytes collected in \<open>old_contents\<close>. Each chunk is handled as the C string
  it starts with.
\<close>

definition block_start :: string where
  "block_start = ''# az-hibernate-agent:start''"

definition block_end :: string where
  "block_end = ''# az-hibernate-agent:end''"

fun strip_managed_block :: "bool \<Rightarrow> string list \<Rightarrow> string" where
  "strip_managed_block in_block [] = []"
| "strip_managed_block in_block (chunk # rest) =
     (if in_block then
        (if strstr (cstr chunk) block_end then strip_managed_block False rest
         else strip_managed_block True rest)
      else if strstr (cstr chunk) block_start then strip_managed_block True rest
      else cstr chunk @ strip_managed_block False rest)"

definition kernel_args :: "string \<Rightarrow> resume_swap_area \<Rightarrow> string" where
  "kernel_args dev_uuid swap_area =
     ''resume=/dev/disk/by-uuid/'' @ dev_uuid @ '' resume_offset=''
       @ print_signed (sint (offset swap_area)) @ '' no_console_suspend=1''"

definition managed_block :: "string \<Rightarrow> string" where
  "managed_block args =
     block_start @ [newline]
     @ ''GRUB_CMDLINE_LINUX_DEFAULT=\"$GRUB_CMDLINE_LINUX_DEFAULT '' @ args @ ''\"'' @ [newline]
     @ block_end @ [newline]"

text \<open>
  The contents of the settings file after the rewrite, from its contents before
  (\<open>None\<close> when it cannot be opened for reading). The buffer has 1024 bytes.
\<close>

definition grub_rewrite :: "string \<Rightarrow> string option \<Rightarrow> string" where
  "grub_rewrite args old =
     (case old of
        None \<Rightarrow> managed_block args
      | Some s \<Rightarrow> strip_managed_block False (fgets_all 1024 s) @ managed_block args)"

definition initramfs_resume_conf :: string where
  "initramfs_resume_conf = ''/etc/initramfs-tools/conf.d/resume''"

definition update_kernel_cmdline_params_for_grub ::
  "env \<Rightarrow> string \<Rightarrow> resume_swap_area \<Rightarrow> bool \<Rightarrow> bool \<Rightarrow> bool \<Rightarrow> bool run" where
  "update_kernel_cmdline_params_for_grub env dev_uuid swap_area has_grubby has_update_grub2
       has_grub2_mkconfig =
     (if \<not> asprintf_ok env then ret False
      else
      let args = kernel_args dev_uuid swap_area in
      then_run
        (if exec_in_path env ''update-initramfs'' then
           (if \<not> writable env initramfs_resume_conf then log_fatal
            else
              then_run
                (emit (Write_file initramfs_resume_conf
                   (''# Updated automatically by az-hibernate-agent. Do not modify.'' @ [newline]
                    @ ''RESUME=UUID='' @ dev_uuid @ [newline])))
                (spawn_and_wait env ''update-initramfs'' [''-u'']))
         else ret ())
        (if has_grubby then
           then_run (spawn_and_wait env ''grubby'' [''--update-kernel=ALL'', ''--args'', args])
             (ret True)
         else if has_update_grub2 \<or> has_grub2_mkconfig then
           bind_run
             (if \<not> directory_empty env ''/etc/default/grub.d''
              then ret ''/etc/default/grub.d/99-hibernate-settings.cfg''
              else if access_ok env ''/etc/default/grub'' then ret ''/etc/default/grub''
              else log_fatal)
             (\<lambda>grub_cfg_path.
                if \<not> writable env grub_cfg_path then log_fatal
                else
                  then_run
                    (emit (Write_file grub_cfg_path
                       (grub_rewrite args (file_contents env grub_cfg_path))))
                    (if has_update_grub2 then
                       then_run (spawn_and_wait env ''update-grub2'' []) (ret True)
                     else if has_grub2_mkconfig then
                       (case find_grub_cfg_path env of
                          None \<Rightarrow> ret False
                        | Some cfg \<Rightarrow>
                            then_run (spawn_and_wait env ''grub2-mkconfig'' [''-o'', cfg])
                              (ret True))
                     else ret True))
         else ret True))"

definition update_swap_offset :: "env \<Rightarrow> swap_file \<Rightarrow> bool run" where
  "update_swap_offset env swap =
     (if \<not> snapshot_open_ok env then ret False
      else
        bind_run (lift (get_swap_area env swap))
          (\<lambda>swap_area.
             then_run (emit (Set_swap_area (dev swap_area) (offset swap_area)))
               (if \<not> set_swap_area_ok env then ret False
                else
                  bind_run (lift (disk_uuid env (path swap)))
                    (\<lambda>uuid.
                       case uuid of
                         None \<Rightarrow> log_fatal
                       | Some dev_uuid \<Rightarrow>
                           bind_run
                             (lift (is_kernel_cmdline_correct (cmdline_buffer0 env)
                                      (file_contents env ''/proc/cmdline'') dev_uuid
                                      (sint (offset swap_area))))
                             (\<lambda>correct.
                                if \<not> correct then
                                  (let has_grubby = exec_in_path env ''grubby'';
                                       has_update_grub2 = exec_in_path env ''update-grub2'';
                                       has_grub2_mkconfig = exec_in_path env ''grub2-mkconfig''
                                   in if has_grubby \<or> has_update_grub2 \<or> has_grub2_mkconfig
                                      then update_kernel_cmdline_params_for_grub env dev_uuid
                                             swap_area has_grubby has_update_grub2
                                             has_grub2_mkconfig
                                      else ret False)
                                else ret True)))))"

subsection \<open>Activation: \<open>ensure_swap_is_enabled\<close>\<close>

fun fstab_keep :: "string \<Rightarrow> string list \<Rightarrow> string" where
  "fstab_keep p [] = []"
| "fstab_keep p (chunk # rest) =
     (if strstr (cstr chunk) p then fstab_keep p rest
      else cstr chunk @ fstab_keep p rest)"

definition tab :: char where
  "tab = CHR 0x09"

definition fstab_entry :: "string \<Rightarrow> string" where
  "fstab_entry p =
     p @ [tab] @ ''none'' @ [tab] @ ''swap'' @ [tab] @ ''swap'' @ [tab] @ ''0'' @ [tab] @ ''0''
       @ [newline]"

definition ensure_swap_is_enabled :: "env \<Rightarrow> swap_file \<Rightarrow> bool \<Rightarrow> unit run" where
  "ensure_swap_is_enabled env swap created =
     then_run (emit (Chmod (path swap)))
       (if \<not> chmod_ok env then log_fatal
        else
          then_run (emit (Swapon (path swap)))
         (then_run
            (case swapon_result env of
               None \<Rightarrow> ret ()
             | Some e \<Rightarrow>
                 if e = EINVAL \<and> \<not> created then log_fatal
                 else if e \<noteq> EBUSY then log_fatal
                 else ret ())
            (case file_contents env ''/etc/fstab'' of
               None \<Rightarrow> log_fatal
             | Some old \<Rightarrow>
                 if \<not> writable env ''/etc/fstab'' then log_fatal
                 else emit (Write_file ''/etc/fstab''
                        (fstab_keep (path swap) (fgets_all 1024 old)
                         @ fstab_entry (path swap))))))"

subsection \<open>The udev rule: \<open>ensure_udev_rules_are_installed\<close>\<close>

definition udev_rule :: "string \<Rightarrow> string" where
  "udev_rule systemctl =
     ''SUBSYSTEM==\"vmbus\", ACTION==\"change\", DRIVER==\"hv_utils\", ENV{EVENT}==\"hibernate\", RUN+=\"''
       @ systemctl @ '' hibernate\"'' @ [newline]"

definition ensure_udev_rules_are_installed :: "env \<Rightarrow> unit run" where
  "ensure_udev_rules_are_installed env =
     (case systemctl_path env of
        None \<Rightarrow> ret ()
      | Some systemctl \<Rightarrow>
          if \<not> exec_in_path env ''udevadm'' then ret ()
          else if \<not> is_hyperv env then ret ()
          else
            bind_run
              (if access_ok env ''/usr/lib/udev/rules.d''
               then ret (Some ''/usr/lib/udev/rules.d/99-vm-hibernation.rules'')
               else if access_ok env ''/etc/udev/rules.d''
               then ret (Some ''/etc/udev/rules.d/99-vm-hibernation.rules'')
               else if access_ok env ''/lib/udev/rules.d''
               then ret (Some ''/lib/udev/rules.d/99-vm-hibernation.rules'')
               else ret None)
              (\<lambda>found.
                 case found of
                   None \<Rightarrow> ret ()
                 | Some udev_rule_path \<Rightarrow>
                     if \<not> writable env udev_rule_path then log_fatal
                     else
                       then_run (emit (Write_file udev_rule_path (udev_rule systemctl)))
                      (then_run (spawn_and_wait env ''udevadm'' [''control'', ''--reload-rules''])
                         (spawn_and_wait env ''udevadm'' [''trigger'']))))"

subsection \<open>Orchestrator: \<open>main\<close>\<close>

text \<open>
  The middle of \<open>main\<close>: the swap file that \<open>find_swap_file\<close> reports, the removal of
  a file that is too small, and the creation of a new one. The result is the swap file
  that the rest of \<open>main\<close> works with, and the flag \<open>created\<close>.
\<close>

definition main_swap_file :: "env \<Rightarrow> size_t \<Rightarrow> (swap_file \<times> bool) run" where
  "main_swap_file env needed_swap =
     bind_run
       (lift (find_swap_file (swaps_buffer0 env) (file_contents env ''/proc/swaps'')
                (stat_swap_file_name env) needed_swap))
       (\<lambda>found.
          bind_run
            (case found of
               None \<Rightarrow> ret None
             | Some swap \<Rightarrow>
                 if capacity swap < needed_swap then
                   then_run (emit (Swapoff (path swap)))
                  (then_run
                     (case swapoff_result env of
                        None \<Rightarrow> ret ()
                      | Some e \<Rightarrow> if e = EINVAL then ret () else log_fatal)
                  (then_run (emit (Unlink (path swap)))
                  (then_run
                     (if \<not> unlink_ok env \<and> access_ok env (path swap) then log_fatal else ret ())
                     (ret None))))
                 else ret (Some swap))
            (\<lambda>kept.
               case kept of
                 None \<Rightarrow> bind_run (create_swap_file env needed_swap) (\<lambda>swap. ret (swap, True))
               | Some swap \<Rightarrow> ret (swap, False)))"

text \<open>\<open>main\<close>: the result is the value it returns; \<open>exit(1)\<close> is \<open>Inl Exit_failure\<close>.\<close>

definition main :: "env \<Rightarrow> int run" where
  "main env =
     (if \<not> hibernation_enabled env then ret 0
      else
        bind_run (lift (physical_memory env))
          (\<lambda>total_ram.
             if total_ram = 0 then log_fatal
             else
               bind_run (lift (swap_needed_size total_ram))
                 (\<lambda>needed_swap.
                    bind_run (main_swap_file env needed_swap)
                      (\<lambda>(swap, created).
                         then_run (ensure_swap_is_enabled env swap created)
                           (bind_run (update_swap_offset env swap)
                              (\<lambda>updated.
                                 if \<not> updated then log_fatal
                                 else
                                   then_run (ensure_udev_rules_are_installed env)
                                     (ret 0)))))))"


subsection \<open>Notions used in the properties\<close>

text \<open>
  An event that patches the boot configuration: a write to the initramfs resume fragment
  or to one of the two GRUB settings files, or a run of one of the four tools that
  regenerate or patch the boot configuration.
\<close>

definition is_boot_patch :: "event \<Rightarrow> bool" where
  "is_boot_patch e =
     (case e of
        Write_file p c \<Rightarrow>
          p = initramfs_resume_conf \<or> p = ''/etc/default/grub.d/99-hibernate-settings.cfg''
          \<or> p = ''/etc/default/grub''
      | Spawn prog args \<Rightarrow>
          prog = ''update-initramfs'' \<or> prog = ''grubby'' \<or> prog = ''update-grub2''
          \<or> prog = ''grub2-mkconfig''
      | _ \<Rightarrow> False)"

text \<open>
  An event that neither patches the boot configuration nor registers a swap area with
  the kernel's hibernation interface.
\<close>

definition before_update :: "event \<Rightarrow> bool" where
  "before_update e = (\<not> is_boot_patch e \<and> (\<forall>d ofs. e \<noteq> Set_swap_area d ofs))"

text \<open>
  The two halves of \<open>update_kernel_cmdline_params_for_grub\<close>, named for the proofs:
  the initramfs fragment, and the patch through \<open>grubby\<close> or the GRUB settings file.
\<close>

definition initramfs_step :: "env \<Rightarrow> string \<Rightarrow> unit run" where
  "initramfs_step env dev_uuid =
        (if exec_in_path env ''update-initramfs'' then
           (if \<not> writable env initramfs_resume_conf then log_fatal
            else
              then_run
                (emit (Write_file initramfs_resume_conf
                   (''# Updated automatically by az-hibernate-agent. Do not modify.'' @ [newline]
                    @ ''RESUME=UUID='' @ dev_uuid @ [newline])))
                (spawn_and_wait env ''update-initramfs'' [''-u'']))
         else ret ())"

definition grub_step :: "env \<Rightarrow> string \<Rightarrow> bool \<Rightarrow> bool \<Rightarrow> bool \<Rightarrow> bool run" where
  "grub_step env args has_grubby has_update_grub2 has_grub2_mkconfig =
        (if has_grubby then
           then_run (spawn_and_wait env ''grubby'' [''--update-kernel=ALL'', ''--args'', args])
             (ret True)
         else if has_update_grub2 \<or> has_grub2_mkconfig then
           bind_run
             (if \<not> directory_empty env ''/etc/default/grub.d''
              then ret ''/etc/default/grub.d/99-hibernate-settings.cfg''
              else if access_ok env ''/etc/default/grub'' then ret ''/etc/default/grub''
              else log_fatal)
             (\<lambda>grub_cfg_path.
                if \<not> writable env grub_cfg_path then log_fatal
                else
                  then_run
                    (emit (Write_file grub_cfg_path
                       (grub_rewrite args (file_contents env grub_cfg_path))))
                    (if has_update_grub2 then
                       then_run (spawn_and_wait env ''update-grub2'' []) (ret True)
                     else if has_grub2_mkconfig then
                       (case find_grub_cfg_path env of
                          None \<Rightarrow> ret False
                        | Some cfg \<Rightarrow>
                            then_run (spawn_and_wait env ''grub2-mkconfig'' [''-o'', cfg])
                              (ret True))
                     else ret True))
         else ret True)"

text \<open>
  What the loop over the fields leaves behind on a line given as fields with their white
  space: \<open>note_field\<close> is the effect of one pass on the three pointers for a field
  that starts at index \<open>p\<close>, \<open>fields_after\<close> the pointers after all passes, and
  \<open>last_pos\<close> the pointer for one key.
\<close>

definition note_field :: "nat \<Rightarrow> string \<Rightarrow> cmdline_fields \<Rightarrow> cmdline_fields" where
  "note_field p t fs =
     (if starts_with t ''resume='' then fs\<lparr>resume_field := Some (p + 7)\<rparr>
      else if starts_with t ''resume_offset='' then fs\<lparr>resume_offset_field := Some (p + 14)\<rparr>
      else if starts_with t ''no_console_suspend=''
      then fs\<lparr>no_console_suspend_field := Some (p + 19)\<rparr>
      else fs)"

fun fields_after :: "nat \<Rightarrow> (string \<times> string) list \<Rightarrow> cmdline_fields \<Rightarrow> cmdline_fields" where
  "fields_after p [] fs = fs"
| "fields_after p ((t, w) # bs) fs = fields_after (p + length t + length w) bs (note_field p t fs)"

fun last_pos :: "string \<Rightarrow> nat \<Rightarrow> (string \<times> string) list \<Rightarrow> nat option \<Rightarrow> nat option" where
  "last_pos k p [] init = init"
| "last_pos k p ((t, w) # bs) init =
     last_pos k (p + length t + length w) bs (if starts_with t k then Some (p + length k) else init)"

text \<open>
  The size of the file at a path after a list of events, from its size before (0 when
  there is no file): \<open>unlink\<close> removes the file, \<open>ftruncate\<close> sets the size,
  \<open>fallocate\<close> with mode 0 and \<open>pwrite\<close> of the four bytes of the pattern extend the
  file when they end behind its end. A call that fails leaves the size as it is.
\<close>

definition size_step :: "env \<Rightarrow> string \<Rightarrow> nat \<Rightarrow> event \<Rightarrow> nat" where
  "size_step env p n e =
     (case e of
        Unlink q \<Rightarrow> if q = p \<and> unlink_ok env then 0 else n
      | Ftruncate q s \<Rightarrow> if q = p \<and> ftruncate_result env = None then unat s else n
      | Fallocate q s \<Rightarrow> if q = p \<and> fallocate_result env = None then max n (unat s) else n
      | Pwrite q ofs \<Rightarrow> if q = p \<and> pwrite_ok env ofs then max n (ofs + 4) else n
      | _ \<Rightarrow> n)"

definition file_size_after :: "env \<Rightarrow> string \<Rightarrow> nat \<Rightarrow> event list \<Rightarrow> nat" where
  "file_size_after env p n es = foldl (size_step env p) n es"


subsection \<open>Concrete systems\<close>

text \<open>
  A virtual machine with 4 GiB of memory and an ext4 root file system, on which the
  agent has not run yet: no swap is active, no file is at the well-known path, the
  kernel command line has none of the three parameters, and \<open>update-grub2\<close> is the
  bootloader tool in the path. The other systems below differ from it in a few answers.
\<close>

definition proc_swaps_header :: string where
  "proc_swaps_header =
     ''Filename'' @ replicate 4 tab @ ''Type'' @ replicate 2 tab @ ''Size'' @ replicate 2 tab
       @ ''Used'' @ replicate 2 tab @ ''Priority'' @ [newline]"

text \<open>A command line in which one space follows every field, and a newline ends the line.\<close>

definition spaced :: "string list \<Rightarrow> (string \<times> string) list" where
  "spaced ts = map (\<lambda>t. (t, [CHR 0x20])) ts"

definition vm_cmdline_fields :: "string list" where
  "vm_cmdline_fields = [''BOOT_IMAGE=/boot/vmlinuz'', ''root=UUID=0a1b'', ''ro'', ''quiet'']"

text \<open>The only line of the GRUB settings file of the machine, without its newline.\<close>

definition vm_grub_line :: string where
  "vm_grub_line = ''GRUB_TIMEOUT=5''"

definition vm_files :: "string \<Rightarrow> string option" where
  "vm_files p =
     (if p = ''/proc/swaps'' then Some proc_swaps_header
      else if p = ''/etc/fstab'' then Some (''UUID=0a1b / ext4 defaults 0 1'' @ [newline])
      else if p = ''/proc/cmdline'' then Some (flat (spaced vm_cmdline_fields) @ [newline])
      else if p = ''/etc/default/grub'' then Some (vm_grub_line @ [newline])
      else None)"

definition vm :: env where
  "vm = \<lparr>
     hibernation_enabled = True,
     physical_memory = Inr 4294967296,
     sysconf_page_size = 4096,
     file_contents = vm_files,
     writable = (\<lambda>p. True),
     access_ok = (\<lambda>p. p = ''/etc/default/grub'' \<or> p = ''/boot/grub/grub.cfg''
                      \<or> p = ''/usr/lib/udev/rules.d''),
     directory_empty = (\<lambda>p. True),
     exec_in_path = (\<lambda>p. p = ''update-grub2'' \<or> p = ''e4defrag'' \<or> p = ''udevadm''),
     spawn_ok = (\<lambda>p args. True),
     statfs_type = (\<lambda>p. Some EXT4_SUPER_MAGIC),
     swaps_buffer0 = replicate 1024 NUL,
     cmdline_buffer0 = replicate 1024 NUL,
     stat_swap_file_name = None,
     swapoff_result = None,
     unlink_ok = True,
     open_creat_ok = True,
     getflags_ok = True,
     ftruncate_result = None,
     fallocate_open_ok = True,
     fallocate_result = None,
     pwrite_open_ok = True,
     mounts_readable = True,
     root_device_open = Some True,
     blkssizeget = Some 512,
     root_f_bsize = Some 4096,
     pwrite_ok = (\<lambda>ofs. True),
     uname_release = Some ''5.15.0-1040-azure'',
     chmod_ok = True,
     swapon_result = None,
     snapshot_open_ok = True,
     open_rdonly_ok = (\<lambda>p. True),
     fstat_answer = (\<lambda>p. Some (True, 2049)),
     ioctl_figetbsz = (\<lambda>p. Some 4096),
     ioctl_fibmap = (\<lambda>p i. Some (i + 34816)),
     set_swap_area_ok = True,
     disk_uuid = (\<lambda>p. Inr (Some ''0a1b'')),
     systemctl_path = Some ''/bin/systemctl'',
     is_hyperv = True,
     asprintf_ok = True
   \<rparr>"

text \<open>The same machine with a file of 2 GiB at the well-known path.\<close>

definition vm_small_file :: env where
  "vm_small_file = vm\<lparr>stat_swap_file_name := Some (True, 2147483648)\<rparr>"

text \<open>The same machine when \<open>asprintf\<close> cannot allocate the argument string.\<close>

definition vm_no_memory :: env where
  "vm_no_memory = vm\<lparr>asprintf_ok := False\<rparr>"

text \<open>The same machine when no bootloader tool is in the path.\<close>

definition vm_no_bootloader :: env where
  "vm_no_bootloader = vm\<lparr>exec_in_path := (\<lambda>p. False)\<rparr>"

text \<open>
  The same machine after it has been set up and booted again: the swap file of 8 GiB is
  at the well-known path, and the kernel command line has the three parameters.
\<close>

definition vm_configured_cmdline_fields :: "string list" where
  "vm_configured_cmdline_fields =
     vm_cmdline_fields
       @ [''resume=/dev/disk/by-uuid/0a1b'', ''resume_offset=34816'', ''no_console_suspend=1'']"

definition vm_configured_files :: "string \<Rightarrow> string option" where
  "vm_configured_files p =
     (if p = ''/proc/cmdline'' then Some (flat (spaced vm_configured_cmdline_fields) @ [newline])
      else vm_files p)"

definition vm_configured :: env where
  "vm_configured =
     vm\<lparr>file_contents := vm_configured_files,
        stat_swap_file_name := Some (True, 8589934592)\<rparr>"

text \<open>The same machine when the disk is full, and on XFS with 4096 bytes of memory.\<close>

definition vm_disk_full :: env where
  "vm_disk_full = vm\<lparr>fallocate_result := Some ENOSPC\<rparr>"

definition vm_xfs :: env where
  "vm_xfs = vm\<lparr>physical_memory := Inr 4096, statfs_type := (\<lambda>p. Some XFS_SUPER_MAGIC)\<rparr>"

definition vm_xfs_write_fails :: env where
  "vm_xfs_write_fails = vm_xfs\<lparr>pwrite_ok := (\<lambda>ofs. ofs < 4096)\<rparr>"

text \<open>
  The same machine when the path of the swap file is not a regular file for \<open>fstat\<close>,
  and when the file has blocks of 1024 bytes at the physical blocks 5, 6, 9, 10.
\<close>

definition vm_not_regular :: env where
  "vm_not_regular = vm\<lparr>fstat_answer := (\<lambda>p. Some (False, 2049))\<rparr>"

definition vm_break :: env where
  "vm_break =
     vm\<lparr>ioctl_figetbsz := (\<lambda>p. Some 1024),
        ioctl_fibmap := (\<lambda>p i. if i < 2 then Some (i + 5) else Some (i + 7))\<rparr>"

text \<open>The swap file that \<open>create_swap_file\<close> returns on these machines.\<close>

definition vm_swap :: swap_file where
  "vm_swap = \<lparr>capacity = 8589934592, path = swap_file_name\<rparr>"

text \<open>
  A swap table with one entry, as the kernel prints it: an active swap file of 2097148
  KiB at \<open>/swapfile\<close>.
\<close>

definition proc_swaps_entry :: string where
  "proc_swaps_entry =
     ''/swapfile'' @ replicate 31 (CHR 0x20) @ ''file'' @ replicate 2 tab @ ''2097148''
       @ replicate 2 tab @ ''0'' @ replicate 2 tab @ ''-2'' @ [newline]"

definition proc_swaps_one_file :: string where
  "proc_swaps_one_file = proc_swaps_header @ proc_swaps_entry"


definition vm_args :: string where
  "vm_args = kernel_args ''0a1b'' \<lparr>offset = 34816, dev = 2049\<rparr>"

definition vm_args_line :: string where
  "vm_args_line =
     ''GRUB_CMDLINE_LINUX_DEFAULT=\"$GRUB_CMDLINE_LINUX_DEFAULT '' @ vm_args @ ''\"''"

text \<open>
  The machine on XFS with 4096 bytes of memory and a file of 8196 bytes at the well-known
  path, and the events of \<open>main\<close> on it.
\<close>

definition vm_xfs_small :: env where
  "vm_xfs_small = vm_xfs\<lparr>stat_swap_file_name := Some (True, 8196)\<rparr>"

definition vm_xfs_events :: "event list" where
  "vm_xfs_events =
     [Swapoff swap_file_name,
      Unlink swap_file_name,
      Open_creat swap_file_name,
      Fs_set_flags swap_file_name FS_NOCOW_FL 0,
      Fs_set_flags swap_file_name FS_NOCOMP_FL FS_COMPR_FL,
      Ioprio_set,
      Pwrite swap_file_name 0,
      Pwrite swap_file_name 4096,
      Pwrite swap_file_name 8192,
      Fdatasync swap_file_name,
      Spawn ''mkswap'' [swap_file_name],
      Chmod swap_file_name,
      Swapon swap_file_name,
      Write_file ''/etc/fstab''
        (fstab_keep swap_file_name (fgets_all 1024 (''UUID=0a1b / ext4 defaults 0 1'' @ [newline]))
           @ fstab_entry swap_file_name),
      Set_swap_area 2049 34816,
      Write_file ''/etc/default/grub'' (grub_rewrite vm_args (Some (vm_grub_line @ [newline]))),
      Spawn ''update-grub2'' [],
      Write_file ''/usr/lib/udev/rules.d/99-vm-hibernation.rules'' (udev_rule ''/bin/systemctl''),
      Spawn ''udevadm'' [''control'', ''--reload-rules''],
      Spawn ''udevadm'' [''trigger'']]"

text \<open>
  The command line of the configured machine as the kernel writes it, with one space
  between the fields and none behind the last; a buffer that holds the bytes
  \<open> resume=x \<close> behind the place of the line and its two terminators; the fields that
  \<open>next_field\<close> finds in that buffer; and the configured machine with this line and
  this buffer.
\<close>

definition vm_kernel_cmdline :: string where
  "vm_kernel_cmdline =
     ''BOOT_IMAGE=/boot/vmlinuz root=UUID=0a1b ro quiet resume=/dev/disk/by-uuid/0a1b resume_offset=34816 no_console_suspend=1''"

definition vm_stale_buffer :: buf where
  "vm_stale_buffer = replicate 121 NUL @ '' resume=x '' @ replicate 893 NUL"

definition vm_stale_blocks :: "(string \<times> string) list" where
  "vm_stale_blocks =
     spaced (vm_cmdline_fields @ [''resume=/dev/disk/by-uuid/0a1b'', ''resume_offset=34816''])
       @ [(''no_console_suspend=1'' @ [NUL, NUL], [CHR 0x20]), (''resume=x'', [CHR 0x20])]"

definition vm_stale :: env where
  "vm_stale =
     vm_configured\<lparr>
       file_contents := (\<lambda>p. if p = ''/proc/cmdline'' then Some (vm_kernel_cmdline @ [newline])
                             else vm_files p),
       cmdline_buffer0 := vm_stale_buffer\<rparr>"


section \<open>Properties\<close>

subsection \<open>Runs and their traces\<close>

lemma bind_run_ret [simp]: "bind_run (ret a) f = f a"
  by (simp add: bind_run_def ret_def split: prod.splits)

lemma bind_run_log_fatal [simp]: "bind_run log_fatal f = log_fatal"
  by (simp add: bind_run_def log_fatal_def)

lemma bind_run_lift_Inr [simp]: "bind_run (lift (Inr a)) f = f a"
  by (simp add: bind_run_def lift_def split: prod.splits)

lemma bind_run_lift_Inl [simp]: "bind_run (lift (Inl e)) f = ([], Inl e)"
  by (simp add: bind_run_def lift_def)

lemma then_run_emit [simp]: "then_run (emit e) n = (e # fst n, snd n)"
  by (simp add: then_run_def bind_run_def emit_def split: prod.splits)

lemma then_run_ret [simp]: "then_run (ret u) n = n"
  by (simp add: then_run_def)

lemma then_run_log_fatal [simp]: "then_run log_fatal n = log_fatal"
  by (simp add: then_run_def)

lemma fst_ret [simp]: "fst (ret a) = []" and snd_ret [simp]: "snd (ret a) = Inr a"
  by (simp_all add: ret_def)

lemma fst_log_fatal [simp]: "fst log_fatal = []"
  and snd_log_fatal [simp]: "snd log_fatal = Inl Exit_failure"
  by (simp_all add: log_fatal_def)

lemma fst_emit [simp]: "fst (emit e) = [e]" and snd_emit [simp]: "snd (emit e) = Inr ()"
  by (simp_all add: emit_def)

lemma fst_lift [simp]: "fst (lift r) = []" and snd_lift [simp]: "snd (lift r) = r"
  by (simp_all add: lift_def)

lemma fst_bind_run:
  "fst (bind_run m f) = fst m @ (case snd m of Inl e \<Rightarrow> [] | Inr a \<Rightarrow> fst (f a))"
  by (cases m) (auto simp: bind_run_def split: sum.splits prod.splits)

lemma snd_bind_run:
  "snd (bind_run m f) = (case snd m of Inl e \<Rightarrow> Inl e | Inr a \<Rightarrow> snd (f a))"
  by (cases m) (auto simp: bind_run_def split: sum.splits prod.splits)

lemma fst_then_run:
  "fst (then_run m n) = fst m @ (case snd m of Inl e \<Rightarrow> [] | Inr a \<Rightarrow> fst n)"
  by (simp add: then_run_def fst_bind_run)

lemma snd_then_run:
  "snd (then_run m n) = (case snd m of Inl e \<Rightarrow> Inl e | Inr a \<Rightarrow> snd n)"
  by (simp add: then_run_def snd_bind_run)

lemma ret_neq_log_fatal [simp]: "ret a \<noteq> log_fatal" "log_fatal \<noteq> ret a"
  by (simp_all add: ret_def log_fatal_def)

lemma ret_eq_iff [simp]: "ret a = ret b \<longleftrightarrow> a = b"
  by (simp add: ret_def)

(* events of components *)
lemma write_pattern_events:
  "e \<in> set (fst (write_pattern env p bs n ofs)) \<Longrightarrow> \<exists>k. e = Pwrite p k"
proof (induction env p bs n ofs rule: write_pattern.induct)
  case (1 env p block_size needed_size ofs)
  then show ?case
    by (subst (asm) (2) write_pattern.simps) (auto split: if_splits prod.splits)
qed

lemma write_pattern_result:
  "0 < bs \<Longrightarrow> \<exists>written. snd (write_pattern env p bs n ofs) = Inr written"
proof (induction env p bs n ofs rule: write_pattern.induct)
  case (1 env p block_size needed_size ofs)
  then show ?case
    by (subst write_pattern.simps) (auto split: if_splits prod.splits)
qed

lemma determine_block_size_positive:
  "determine_block_size_for_root_fs env = Inr bs \<Longrightarrow> 0 < bs"
  by (auto simp: determine_block_size_for_root_fs_def Let_def split: if_splits option.splits bool.splits)

lemma determine_block_size_error:
  "determine_block_size_for_root_fs env = Inl e \<Longrightarrow> e = Exit_failure"
  by (auto simp: determine_block_size_for_root_fs_def Let_def split: if_splits option.splits bool.splits)

subsection \<open>The events and results of each function\<close>

lemma try_zero_out_with_write_result:
  "snd (try_zero_out_with_write env p n) = Inl Exit_failure
   \<or> (\<exists>written. snd (try_zero_out_with_write env p n) = Inr written)"
proof (cases "pwrite_open_ok env")
  case False
  then show ?thesis by (auto simp: try_zero_out_with_write_def)
next
  case True
  show ?thesis
  proof (cases "determine_block_size_for_root_fs env")
    case (Inl e)
    with determine_block_size_error [OF Inl] True show ?thesis
      by (simp add: try_zero_out_with_write_def)
  next
    case (Inr bs)
    from determine_block_size_positive [OF Inr]
    obtain written where "snd (write_pattern env p bs (unat n) 0) = Inr written"
      using write_pattern_result by blast
    with Inr True show ?thesis
      by (auto simp: try_zero_out_with_write_def snd_bind_run snd_then_run)
  qed
qed

lemma create_with_size_events:
  "e \<in> set (fst (create_swap_file_with_size env p n)) \<Longrightarrow>
     e = Open_creat p \<or> (\<exists>a b. e = Fs_set_flags p a b) \<or> e = Ftruncate p n"
  by (auto simp: create_swap_file_with_size_def fs_set_flags_def fst_then_run
      split: if_splits sum.splits)

lemma perform_fs_specific_checks_events:
  "e \<in> set (fst (perform_fs_specific_checks env p)) \<Longrightarrow> \<exists>prog args. e = Spawn prog args"
  by (auto simp: perform_fs_specific_checks_def try_spawn_and_wait_def fst_bind_run
      split: if_splits option.splits sum.splits)

lemma fst_spawn_and_wait:
  "fst (spawn_and_wait env prog args) = [Spawn prog args]"
  by (simp add: spawn_and_wait_def try_spawn_and_wait_def fst_bind_run)

lemma snd_spawn_and_wait:
  "snd (spawn_and_wait env prog args) = (if spawn_ok env prog args then Inr () else Inl Exit_failure)"
  by (simp add: spawn_and_wait_def try_spawn_and_wait_def snd_bind_run)

lemma try_zero_out_with_write_events:
  "e \<in> set (fst (try_zero_out_with_write env p n)) \<Longrightarrow> (\<exists>k. e = Pwrite p k) \<or> e = Fdatasync p"
  by (auto simp: try_zero_out_with_write_def fst_bind_run fst_then_run
      split: if_splits sum.splits dest: write_pattern_events)

lemma fst_try_zeroing_out_with_fallocate:
  "fst (try_zeroing_out_with_fallocate env p n) = (if fallocate_open_ok env then [Fallocate p n] else [])"
  by (auto simp: try_zeroing_out_with_fallocate_def split: option.splits)

lemma snd_try_zeroing_out_with_fallocate:
  "snd (try_zeroing_out_with_fallocate env p n) =
     (if \<not> fallocate_open_ok env then Inr False
      else if fallocate_result env = None then Inr True else Inl Exit_failure)"
  by (auto simp: try_zeroing_out_with_fallocate_def split: option.splits)



lemma snd_create_swap_file_with_size:
  "snd (create_swap_file_with_size env p n) =
     Inr (open_creat_ok env \<and> (is_file_on_fs env p XFS_SUPER_MAGIC \<or> ftruncate_result env = None))"
  by (auto simp: create_swap_file_with_size_def fs_set_flags_def snd_then_run)

lemma create_swap_file_fast_fatal:
  assumes "open_creat_ok env" "ftruncate_result env = None"
    and "\<not> is_file_on_fs env swap_file_name XFS_SUPER_MAGIC"
    and "fallocate_open_ok env" "fallocate_result env = Some e"
  shows "create_swap_file env needed_size =
     (fst (create_swap_file_with_size env swap_file_name needed_size)
        @ [Ioprio_set, Fallocate swap_file_name needed_size], Inl Exit_failure)"
proof -
  have c: "create_swap_file_with_size env swap_file_name needed_size
    = (fst (create_swap_file_with_size env swap_file_name needed_size), Inr True)"
    using assms by (simp add: prod_eq_iff snd_create_swap_file_with_size)
  have z: "try_zeroing_out_with_fallocate env swap_file_name needed_size
    = ([Fallocate swap_file_name needed_size], Inl Exit_failure)"
    using assms
    by (simp add: prod_eq_iff fst_try_zeroing_out_with_fallocate snd_try_zeroing_out_with_fallocate)
  show ?thesis
    unfolding create_swap_file_def
    apply (subst c)
    apply (simp add: bind_run_def assms z prod_eq_iff fst_then_run snd_then_run Let_def)
    done
qed

lemma create_swap_file_pwrite:
  assumes "Pwrite p k \<in> set (fst (create_swap_file env needed_size))"
  shows "is_file_on_fs env swap_file_name XFS_SUPER_MAGIC \<or> \<not> fallocate_open_ok env"
proof (rule ccontr)
  assume "\<not> ?thesis"
  then have nx: "\<not> is_file_on_fs env swap_file_name XFS_SUPER_MAGIC" and fo: "fallocate_open_ok env"
    by simp_all
  from assms show False
    using nx fo
    by (auto simp: create_swap_file_def fst_bind_run fst_then_run snd_bind_run snd_then_run Let_def
        fst_try_zeroing_out_with_fallocate snd_try_zeroing_out_with_fallocate
        fst_spawn_and_wait snd_create_swap_file_with_size
        split: sum.splits if_splits
        dest: create_with_size_events perform_fs_specific_checks_events)
qed

lemma create_swap_file_slow_fatal:
  assumes "is_file_on_fs env swap_file_name XFS_SUPER_MAGIC \<or> \<not> fallocate_open_ok env"
    and "snd (try_zero_out_with_write env swap_file_name needed_size) \<noteq> Inr True"
  shows "snd (create_swap_file env needed_size) = Inl Exit_failure"
proof -
  from assms(2) try_zero_out_with_write_result [of env swap_file_name needed_size]
  have w: "snd (try_zero_out_with_write env swap_file_name needed_size) = Inl Exit_failure
        \<or> snd (try_zero_out_with_write env swap_file_name needed_size) = Inr False"
    by auto
  then show ?thesis
    using assms(1)
    by (auto simp: create_swap_file_def snd_bind_run snd_then_run Let_def
        snd_try_zeroing_out_with_fallocate snd_create_swap_file_with_size
        split: sum.splits if_splits)
qed


lemma get_swap_area_rejects:
  assumes "(\<exists>st_dev. fstat_answer env (path swap) = Some (False, st_dev))
     \<or> get_swap_file_offset (sysconf_page_size env) (ioctl_figetbsz env (path swap))
          (ioctl_fibmap env (path swap)) = Inr (- 1)"
  shows "get_swap_area env swap = Inl Exit_failure"
  using assms by (auto simp: get_swap_area_def split: option.splits)

lemma update_swap_offset_rejected:
  assumes "get_swap_area env swap = Inl Exit_failure"
  shows "update_swap_offset env swap = ([], Inr False) \<or> update_swap_offset env swap = ([], Inl Exit_failure)"
  using assms by (auto simp: update_swap_offset_def ret_def)



lemma main_stages:
  assumes "hibernation_enabled env" "physical_memory env = Inr ram" "ram \<noteq> 0"
    and "swap_needed_size ram = Inr needed"
  shows "main env =
     bind_run (main_swap_file env needed)
       (\<lambda>(swap, created).
          then_run (ensure_swap_is_enabled env swap created)
            (bind_run (update_swap_offset env swap)
               (\<lambda>updated.
                  if \<not> updated then log_fatal
                  else then_run (ensure_udev_rules_are_installed env) (ret 0))))"
  using assms by (simp add: main_def)


lemma ensure_swap_is_enabled_events:
  "e \<in> set (fst (ensure_swap_is_enabled env swap created)) \<Longrightarrow>
     e = Chmod (path swap) \<or> e = Swapon (path swap) \<or> (\<exists>c. e = Write_file ''/etc/fstab'' c)"
  by (auto simp: ensure_swap_is_enabled_def fst_then_run split: if_splits option.splits sum.splits)


lemma ensure_swap_is_enabled_result:
  "snd (ensure_swap_is_enabled env swap created) = Inl e \<Longrightarrow> e = Exit_failure"
  by (auto simp: ensure_swap_is_enabled_def fst_then_run snd_then_run
      split: if_splits option.splits sum.splits)


lemma perform_fs_specific_checks_programs:
  "e \<in> set (fst (perform_fs_specific_checks env p)) \<Longrightarrow>
     \<exists>prog args. e = Spawn prog args \<and> (prog = ''e4defrag'' \<or> prog = ''btrfs'' \<or> prog = ''xfs_fsr'')"
  by (auto simp: perform_fs_specific_checks_def try_spawn_and_wait_def fst_bind_run
      split: if_splits option.splits sum.splits)

lemma create_swap_file_events:
  assumes "e \<in> set (fst (create_swap_file env n))"
  shows "before_update e \<and> (\<forall>q. e \<noteq> Swapon q)"
  using assms
  by (auto simp: create_swap_file_def fst_bind_run fst_then_run Let_def
      fst_try_zeroing_out_with_fallocate fst_spawn_and_wait before_update_def is_boot_patch_def
      split: sum.splits if_splits
      dest!: create_with_size_events perform_fs_specific_checks_programs
        try_zero_out_with_write_events)


lemma fst_create_swap_file_with_size:
  "fst (create_swap_file_with_size env p n) =
     Open_creat p #
       (if \<not> open_creat_ok env then []
        else (if getflags_ok env
              then [Fs_set_flags p FS_NOCOW_FL 0, Fs_set_flags p FS_NOCOMP_FL FS_COMPR_FL]
              else [])
             @ (if is_file_on_fs env p XFS_SUPER_MAGIC then [] else [Ftruncate p n]))"
  by (simp add: create_swap_file_with_size_def fs_set_flags_def fst_then_run)

lemma try_zero_out_with_write_fdatasync:
  "snd (try_zero_out_with_write env p n) = Inr True \<Longrightarrow>
     Fdatasync p \<in> set (fst (try_zero_out_with_write env p n))"
  by (auto simp: try_zero_out_with_write_def fst_bind_run snd_bind_run fst_then_run snd_then_run
      split: if_splits sum.splits)

lemma create_swap_file_success:
  assumes "snd (create_swap_file env n) = Inr sw"
  shows "sw = \<lparr>capacity = n, path = swap_file_name\<rparr>
     \<and> Open_creat swap_file_name \<in> set (fst (create_swap_file env n))
     \<and> Spawn ''mkswap'' [swap_file_name] \<in> set (fst (create_swap_file env n))
     \<and> (is_file_on_fs env swap_file_name XFS_SUPER_MAGIC
          \<or> Ftruncate swap_file_name n \<in> set (fst (create_swap_file env n)))
     \<and> (Fallocate swap_file_name n \<in> set (fst (create_swap_file env n))
          \<or> Fdatasync swap_file_name \<in> set (fst (create_swap_file env n)))"
proof -
  let ?c = "create_swap_file_with_size env swap_file_name n"
  let ?xfs = "is_file_on_fs env swap_file_name XFS_SUPER_MAGIC"
  let ?z = "try_zeroing_out_with_fallocate env swap_file_name n"
  let ?w = "try_zero_out_with_write env swap_file_name n"
  from assms have c: "snd ?c = Inr True"
    by (auto simp: create_swap_file_def snd_bind_run snd_create_swap_file_with_size
        split: if_splits)
  then have oc: "open_creat_ok env" and tr: "?xfs \<or> ftruncate_result env = None"
    by (simp_all add: snd_create_swap_file_with_size)
  have slow: "(?xfs \<or> snd ?z = Inr False) \<longrightarrow> snd ?w = Inr True"
    using assms c
    by (auto simp: create_swap_file_def snd_bind_run snd_then_run Let_def
        split: if_splits sum.splits)
  have fast: "\<not> ?xfs \<longrightarrow> snd ?z = Inr False \<or> snd ?z = Inr True"
    using assms c
    by (auto simp: create_swap_file_def snd_bind_run snd_then_run Let_def
        split: if_splits sum.splits)
  have sw: "sw = \<lparr>capacity = n, path = swap_file_name\<rparr>"
    using assms c
    by (auto simp: create_swap_file_def snd_bind_run snd_then_run Let_def
        split: if_splits sum.splits)
  have mk: "snd (spawn_and_wait env ''mkswap'' [swap_file_name]) = Inr ()
      \<and> (\<exists>u. snd (perform_fs_specific_checks env swap_file_name) = Inr u)"
    using assms c
    by (auto simp: create_swap_file_def snd_bind_run snd_then_run Let_def
        split: if_splits sum.splits)
  have ev: "fst (create_swap_file env n) =
      fst ?c @ Ioprio_set # (if ?xfs then [] else fst ?z)
        @ (if ?xfs \<or> snd ?z = Inr False then fst ?w else [])
        @ fst (perform_fs_specific_checks env swap_file_name)
        @ [Spawn ''mkswap'' [swap_file_name]]"
    using c slow fast mk
    by (auto simp: create_swap_file_def fst_bind_run snd_bind_run fst_then_run snd_then_run
        Let_def fst_spawn_and_wait split: sum.splits)
  have e1: "Open_creat swap_file_name \<in> set (fst ?c)"
    by (simp add: fst_create_swap_file_with_size)
  have e2: "?xfs \<or> Ftruncate swap_file_name n \<in> set (fst ?c)"
    using oc by (simp add: fst_create_swap_file_with_size)
  have e3: "(\<not> ?xfs \<and> Fallocate swap_file_name n \<in> set (fst ?z))
        \<or> ((?xfs \<or> snd ?z = Inr False) \<and> Fdatasync swap_file_name \<in> set (fst ?w))"
  proof (cases "?xfs \<or> snd ?z = Inr False")
    case True
    with slow try_zero_out_with_write_fdatasync show ?thesis by blast
  next
    case False
    with fast have "snd ?z = Inr True" by simp
    then have "Fallocate swap_file_name n \<in> set (fst ?z)"
      by (auto simp: fst_try_zeroing_out_with_fallocate snd_try_zeroing_out_with_fallocate
          split: if_splits)
    with False show ?thesis by simp
  qed
  from sw e1 e2 e3 show ?thesis
    unfolding ev by auto
qed

lemma main_swap_file_capacity:
  assumes "snd (main_swap_file env needed) = Inr (swap, created)"
  shows "needed \<le> capacity swap"
proof (cases "find_swap_file (swaps_buffer0 env) (file_contents env ''/proc/swaps'')
                (stat_swap_file_name env) needed")
  case (Inl e)
  with assms show ?thesis by (simp add: main_swap_file_def)
next
  case (Inr found)
  show ?thesis
  proof (cases "\<exists>sf. found = Some sf \<and> \<not> capacity sf < needed")
    case True
    with Inr assms show ?thesis by (auto simp: main_swap_file_def)
  next
    case False
    with Inr assms obtain sw where "snd (create_swap_file env needed) = Inr sw" "swap = sw"
      by (cases found)
         (auto simp: main_swap_file_def snd_bind_run snd_then_run
           split: if_splits sum.splits option.splits)
    with create_swap_file_success [of env needed sw] show ?thesis by simp
  qed
qed

lemma main_swap_file_too_small:
  assumes "find_swap_file (swaps_buffer0 env) (file_contents env ''/proc/swaps'')
                (stat_swap_file_name env) needed = Inr (Some sf)"
    and "capacity sf < needed"
    and "snd (main_swap_file env needed) = Inr (swap, created)"
  shows "fst (main_swap_file env needed)
           = Swapoff (path sf) # Unlink (path sf) # fst (create_swap_file env needed)
       \<and> snd (create_swap_file env needed) = Inr swap \<and> created"
  using assms
  by (auto simp: main_swap_file_def fst_bind_run snd_bind_run fst_then_run snd_then_run
      split: if_splits sum.splits option.splits)

lemma main_swap_file_events:
  assumes "e \<in> set (fst (main_swap_file env needed))"
  shows "before_update e \<and> (\<forall>q. e \<noteq> Swapon q)"
proof (cases "find_swap_file (swaps_buffer0 env) (file_contents env ''/proc/swaps'')
                (stat_swap_file_name env) needed")
  case (Inl e)
  with assms show ?thesis by (simp add: main_swap_file_def)
next
  case (Inr found)
  with assms have "e \<in> set (fst (create_swap_file env needed))
      \<or> (\<exists>p. e = Swapoff p) \<or> (\<exists>p. e = Unlink p)"
    by (cases found)
       (auto simp: main_swap_file_def fst_bind_run snd_bind_run fst_then_run snd_then_run
         split: if_splits sum.splits option.splits)
  with create_swap_file_events [of e env needed] show ?thesis
    by (auto simp: before_update_def is_boot_patch_def)
qed


lemma update_kernel_cmdline_params_for_grub_events:
  "e \<in> set (fst (update_kernel_cmdline_params_for_grub env dev_uuid area g u m)) \<Longrightarrow>
     (\<exists>p c. e = Write_file p c) \<or> (\<exists>p a. e = Spawn p a)"
  by (auto simp: update_kernel_cmdline_params_for_grub_def Let_def fst_then_run snd_then_run
      fst_bind_run snd_bind_run fst_spawn_and_wait
      split: if_splits option.splits sum.splits)

lemma update_swap_offset_events:
  "e \<in> set (fst (update_swap_offset env swap)) \<Longrightarrow>
     (\<exists>d ofs. e = Set_swap_area d ofs) \<or> (\<exists>p c. e = Write_file p c) \<or> (\<exists>p a. e = Spawn p a)"
  by (auto simp: update_swap_offset_def Let_def fst_then_run snd_then_run
      fst_bind_run snd_bind_run
      split: if_splits option.splits sum.splits
      dest: update_kernel_cmdline_params_for_grub_events)

lemma ensure_udev_rules_are_installed_events:
  "e \<in> set (fst (ensure_udev_rules_are_installed env)) \<Longrightarrow>
     (\<exists>p c. e = Write_file p c \<and> p \<in> {''/usr/lib/udev/rules.d/99-vm-hibernation.rules'',
         ''/etc/udev/rules.d/99-vm-hibernation.rules'', ''/lib/udev/rules.d/99-vm-hibernation.rules''})
     \<or> (\<exists>a. e = Spawn ''udevadm'' a)"
  by (auto simp: ensure_udev_rules_are_installed_def Let_def fst_then_run snd_then_run
      fst_bind_run snd_bind_run fst_spawn_and_wait
      split: if_splits option.splits sum.splits)

lemma main_activation:
  assumes en: "hibernation_enabled env" "physical_memory env = Inr ram" "ram \<noteq> 0"
    "swap_needed_size ram = Inr needed"
    and sw: "Swapon q \<in> set (fst (main env))"
  shows "\<exists>swap created rest.
           snd (main_swap_file env needed) = Inr (swap, created)
           \<and> q = path swap
           \<and> fst (main env)
               = fst (main_swap_file env needed) @ Chmod (path swap) # Swapon (path swap) # rest"
proof -
  note m = main_stages [OF en]
  show ?thesis
  proof (cases "snd (main_swap_file env needed)")
    case (Inl e)
    with sw m main_swap_file_events [of "Swapon q" env needed] show ?thesis
      by (auto simp: fst_bind_run)
  next
    case (Inr r)
    obtain swap created where r: "r = (swap, created)" by (cases r)
    define after where "after = bind_run (update_swap_offset env swap)
               (\<lambda>updated.
                  if \<not> updated then log_fatal
                  else then_run (ensure_udev_rules_are_installed env) (ret (0::int)))"
    have fm: "fst (main env) = fst (main_swap_file env needed)
        @ fst (then_run (ensure_swap_is_enabled env swap created) after)"
      using Inr r by (simp add: m fst_bind_run after_def)
    have "Swapon q \<notin> set (fst (main_swap_file env needed))"
      using main_swap_file_events [of "Swapon q" env needed] by auto
    with sw fm
    have in2: "Swapon q \<in> set (fst (then_run (ensure_swap_is_enabled env swap created) after))"
      by simp
    have na: "Swapon q \<notin> set (fst after)"
      by (auto simp: after_def fst_bind_run fst_then_run split: sum.splits if_splits
          dest: update_swap_offset_events ensure_udev_rules_are_installed_events)
    from in2 na have "Swapon q \<in> set (fst (ensure_swap_is_enabled env swap created))"
      by (auto simp: fst_then_run split: sum.splits)
    then have q: "q = path swap" and ck: "chmod_ok env"
      by (auto simp: ensure_swap_is_enabled_def fst_then_run split: if_splits sum.splits option.splits)
    from ck obtain rest where
      "fst (then_run (ensure_swap_is_enabled env swap created) after)
              = Chmod (path swap) # Swapon (path swap) # rest"
      by (simp add: ensure_swap_is_enabled_def fst_then_run)
    with fm q Inr r show ?thesis by auto
  qed
qed


lemma update_kernel_cmdline_params_for_grub_steps:
  "update_kernel_cmdline_params_for_grub env dev_uuid area g u m =
     (if \<not> asprintf_ok env then ret False
      else then_run (initramfs_step env dev_uuid)
             (grub_step env (kernel_args dev_uuid area) g u m))"
  by (simp add: update_kernel_cmdline_params_for_grub_def initramfs_step_def grub_step_def Let_def)


lemma initramfs_step_result:
  "snd (initramfs_step env dev_uuid) = Inr () \<or> snd (initramfs_step env dev_uuid) = Inl Exit_failure"
  by (simp add: initramfs_step_def snd_then_run snd_spawn_and_wait)

lemma initramfs_step_events:
  "e \<in> set (fst (initramfs_step env dev_uuid)) \<Longrightarrow>
     (\<exists>c. e = Write_file initramfs_resume_conf c) \<or> e = Spawn ''update-initramfs'' [''-u'']"
  by (auto simp: initramfs_step_def fst_then_run fst_spawn_and_wait split: if_splits)


lemma grub_step_result:
  "snd (grub_step env args g u m) = Inl e \<Longrightarrow> e = Exit_failure"
  by (cases g; cases u; cases m; cases "find_grub_cfg_path env")
     (auto simp: grub_step_def snd_then_run snd_bind_run snd_spawn_and_wait
       split: if_splits sum.splits)

lemma grub_step_events:
  "e \<in> set (fst (grub_step env args g u m)) \<Longrightarrow>
     (\<exists>p c. e = Write_file p c \<and> (p = ''/etc/default/grub.d/99-hibernate-settings.cfg''
                                   \<or> p = ''/etc/default/grub''))
     \<or> (\<exists>a. e = Spawn ''grubby'' a) \<or> e = Spawn ''update-grub2'' []
     \<or> (\<exists>a. e = Spawn ''grub2-mkconfig'' a)"
  by (cases g; cases u; cases m; cases "find_grub_cfg_path env")
     (auto simp: grub_step_def fst_then_run fst_bind_run fst_spawn_and_wait
       split: if_splits sum.splits)

lemma grub_step_patch_or_fatal:
  assumes "g \<or> u \<or> m"
  shows "(\<exists>e \<in> set (fst (grub_step env args g u m)). is_boot_patch e)
     \<or> snd (grub_step env args g u m) = Inl Exit_failure"
  using assms
  by (cases g; cases u; cases m; cases "find_grub_cfg_path env")
     (auto simp: grub_step_def fst_then_run snd_then_run fst_bind_run snd_bind_run
       fst_spawn_and_wait snd_spawn_and_wait is_boot_patch_def split: if_splits)


lemma grub_result:
  "snd (update_kernel_cmdline_params_for_grub env dev_uuid area g u m) = Inl e \<Longrightarrow> e = Exit_failure"
  using initramfs_step_result [of env dev_uuid]
  by (cases "asprintf_ok env")
     (auto simp: update_kernel_cmdline_params_for_grub_steps snd_then_run ret_def
      split: sum.splits dest: grub_step_result)




subsection \<open>Fields in a buffer\<close>

lemma scan_while_append:
  "\<forall>c \<in> set xs. P c \<Longrightarrow> \<not> P y \<Longrightarrow> scan_while P (xs @ y # ys) = Some (length xs)"
  by (induction xs) auto

lemma NUL_not_space [simp]: "\<not> isspace NUL"
  by (simp add: isspace_def NUL_def)

lemma next_field_block:
  assumes b: "b = pre @ tok @ w # ws @ c # rest"
    and tok: "\<forall>x \<in> set tok. \<not> isspace x" "tok = [] \<or> hd tok \<noteq> NUL"
    and w: "isspace w" "\<forall>x \<in> set ws. isspace x" and c: "\<not> isspace c"
  shows "next_field b (Some (length pre))
     = Inr (pre @ tok @ NUL # ws @ c # rest, Some (length pre + length tok + 1 + length ws))"
proof -
  have nz: "b ! length pre \<noteq> NUL"
  proof (cases tok)
    case Nil
    with b w(1) show ?thesis by (auto simp: nth_append)
  next
    case (Cons x xs)
    with b tok(2) show ?thesis by (auto simp: nth_append)
  qed
  have len: "\<not> length b \<le> length pre" using b by simp
  have d: "drop (length pre) b = tok @ w # ws @ c # rest" using b by simp
  have s1: "scan_while (\<lambda>c. \<not> isspace c) (drop (length pre) b) = Some (length tok)"
    unfolding d using tok(1) w(1) by (intro scan_while_append) auto
  have upd: "b[length pre + length tok := NUL] = pre @ tok @ NUL # ws @ c # rest"
    using b by (simp add: list_update_append)
  have d2: "drop (length pre + length tok + 1) (pre @ tok @ NUL # ws @ c # rest) = ws @ c # rest"
    by simp
  have s2: "scan_while isspace (ws @ c # rest) = Some (length ws)"
    using w(2) c by (intro scan_while_append) auto
  show ?thesis
    using nz len s1 upd d2 s2 by (simp add: next_field_def Let_def)
qed

lemma next_field_at_NUL:
  "next_field (pre @ NUL # rest) (Some (length pre)) = Inr (pre @ NUL # rest, None)"
  by (simp add: next_field_def)

lemma has_prefix_at_mismatch:
  "x \<notin> set key \<Longrightarrow>
     has_prefix_at (pre @ t @ x # rest) (length pre) key = Inr (starts_with t key)"
proof (induction key arbitrary: pre t)
  case Nil
  then show ?case by simp
next
  case (Cons k key)
  show ?case
  proof (cases t)
    case Nil
    with Cons.prems show ?thesis by (auto simp: nth_append)
  next
    case (Cons y ys)
    have "has_prefix_at ((pre @ [y]) @ ys @ x # rest) (length (pre @ [y])) key
        = Inr (starts_with ys key)"
      using Cons.prems by (intro Cons.IH) simp
    with Cons show ?thesis by (auto simp: nth_append)
  qed
qed

lemma starts_with_append: "starts_with (s @ r) s"
  by (induction s) auto

lemma starts_with_iff: "starts_with t key \<longleftrightarrow> (\<exists>r. t = key @ r)"
proof (induction key arbitrary: t)
  case Nil
  then show ?case by simp
next
  case (Cons k key)
  then show ?case by (cases t) auto
qed

lemma strcmp_eq_reads:
  assumes "NUL \<notin> set v" "NUL \<notin> set s"
  shows "strcmp_eq (a @ v @ NUL # c) (length a) s = Inr (s = v)"
proof -
  have h: "has_prefix_at (a @ v @ NUL # c) (length a) s = Inr (starts_with v s)"
    using assms(2) by (rule has_prefix_at_mismatch)
  show ?thesis
  proof (cases "starts_with v s")
    case False
    then have "s \<noteq> v" using starts_with_append [of s "[]"] by auto
    with h False show ?thesis by (simp add: strcmp_eq_def)
  next
    case True
    then obtain r where r: "v = s @ r" by (auto simp: starts_with_iff)
    have "(a @ v @ NUL # c) ! (length a + length s) = (r @ NUL # c) ! 0"
      by (simp add: r nth_append)
    moreover have "(r @ NUL # c) ! 0 = NUL \<longleftrightarrow> r = []"
      using assms(1) r by (cases r) auto
    ultimately show ?thesis
      using h True r by (auto simp: strcmp_eq_def)
  qed
qed

lemma key_chars:
  "x \<in> set ''resume='' \<or> x \<in> set ''resume_offset='' \<or> x \<in> set ''no_console_suspend=''
     \<Longrightarrow> \<not> isspace x \<and> x \<noteq> NUL"
  by (auto simp: isspace_def NUL_def)

lemma match_field_block:
  assumes "isspace x \<or> x = NUL"
  shows "match_field (pre @ t @ x # rest) (length pre) fs = Inr (note_field (length pre) t fs)"
proof -
  have k: "x \<notin> set ''resume=''" "x \<notin> set ''resume_offset=''"
    "x \<notin> set ''no_console_suspend=''"
    using assms key_chars [of x] by blast+
  have h:
    "has_prefix_at (pre @ t @ x # rest) (length pre) ''resume='' = Inr (starts_with t ''resume='')"
    "has_prefix_at (pre @ t @ x # rest) (length pre) ''resume_offset=''
       = Inr (starts_with t ''resume_offset='')"
    "has_prefix_at (pre @ t @ x # rest) (length pre) ''no_console_suspend=''
       = Inr (starts_with t ''no_console_suspend='')"
    by (rule has_prefix_at_mismatch [OF k(1)], rule has_prefix_at_mismatch [OF k(2)],
        rule has_prefix_at_mismatch [OF k(3)])
  show ?thesis
    unfolding match_field_def note_field_def h
    by (cases "starts_with t ''resume=''"; cases "starts_with t ''resume_offset=''";
        cases "starts_with t ''no_console_suspend=''")
       (simp_all only: sum.simps bool.simps if_True if_False)
qed

lemma flat_Cons: "flat ((t, w) # bs) = t @ w @ flat bs"
  by (simp add: flat_def)

lemma terminated_Cons: "terminated ((t, w) # bs) = t @ NUL # tl w @ terminated bs"
  by (simp add: terminated_def)

lemma flat_Nil [simp]: "flat [] = []" and terminated_Nil [simp]: "terminated [] = []"
  by (simp_all add: flat_def terminated_def)

lemma field_is_token: "field_and_space b \<Longrightarrow> token_and_space b"
  by (cases b, cases "fst b")
     (auto simp: field_and_space_def token_and_space_def list_all_iff)

lemma flat_head:
  assumes "list_all token_and_space bs"
  shows "\<exists>c r. flat bs @ NUL # rest = c # r \<and> \<not> isspace c"
proof (cases bs)
  case Nil
  then show ?thesis by simp
next
  case (Cons b bs')
  obtain t w where b: "b = (t, w)" by (cases b)
  with Cons assms obtain x xs where t: "t = x # xs" "\<not> isspace x"
    by (cases t) (auto simp: token_and_space_def)
  with Cons b show ?thesis by (simp add: flat_Cons)
qed

lemma scan_fields_tokens:
  assumes "list_all token_and_space bs"
  shows "scan_fields (pre @ flat bs @ NUL # rest) (length pre) fs
     = Inr (pre @ terminated bs @ NUL # rest, fields_after (length pre) bs fs)"
  using assms
proof (induction bs arbitrary: pre fs)
  case Nil
  have m: "match_field (pre @ [] @ NUL # rest) (length pre) fs = Inr (note_field (length pre) [] fs)"
    by (rule match_field_block) simp
  have n: "note_field (length pre) [] fs = fs" by (simp add: note_field_def)
  show ?case
    by (subst scan_fields.simps) (use m n in \<open>simp add: next_field_at_NUL\<close>)
next
  case (Cons b bs)
  obtain t w where b: "b = (t, w)" by (cases b)
  from Cons.prems b have fb: "token_and_space (t, w)" and rest_wf: "list_all token_and_space bs"
    by simp_all
  from fb have wf: "t \<noteq> []" "list_all (\<lambda>x. \<not> isspace x) t"
    "w \<noteq> []" "list_all isspace w" and hd: "hd t \<noteq> NUL"
    by (simp_all add: token_and_space_def)
  from wf(3) obtain w0 ws where w: "w = w0 # ws" by (cases w) auto
  with wf(4) have w0: "isspace w0" and ws: "\<forall>x \<in> set ws. isspace x"
    by (auto simp: list_all_iff)
  from flat_head [OF rest_wf] obtain c r where c: "flat bs @ NUL # rest = c # r" "\<not> isspace c"
    by blast
  let ?b = "pre @ flat ((t, w) # bs) @ NUL # rest"
  have shape: "?b = pre @ t @ w0 # ws @ c # r"
    using c(1) by (simp add: flat_Cons w)
  have m: "match_field ?b (length pre) fs = Inr (note_field (length pre) t fs)"
    unfolding shape using w0 by (intro match_field_block) simp
  have tk1: "\<forall>x \<in> set t. \<not> isspace x"
    using wf(2) by (simp add: list_all_iff)
  have tk2: "t = [] \<or> hd t \<noteq> NUL"
    using hd by simp
  have nf: "next_field ?b (Some (length pre))
      = Inr (pre @ t @ NUL # ws @ c # r, Some (length pre + length t + 1 + length ws))"
    by (rule next_field_block [OF shape tk1 tk2 w0 ws c(2)])
  have b': "pre @ t @ NUL # ws @ c # r = (pre @ t @ NUL # ws) @ flat bs @ NUL # rest"
    using c(1) by simp
  have q: "length pre + length t + 1 + length ws = length (pre @ t @ NUL # ws)" by simp
  have ih: "scan_fields ((pre @ t @ NUL # ws) @ flat bs @ NUL # rest) (length (pre @ t @ NUL # ws))
              (note_field (length pre) t fs)
     = Inr ((pre @ t @ NUL # ws) @ terminated bs @ NUL # rest,
            fields_after (length (pre @ t @ NUL # ws)) bs (note_field (length pre) t fs))"
    by (rule Cons.IH [OF rest_wf])
  have "scan_fields ?b (length pre) fs
      = scan_fields (pre @ t @ NUL # ws @ c # r) (length pre + length t + 1 + length ws)
          (note_field (length pre) t fs)"
    by (subst scan_fields.simps) (simp add: m nf)
  also have "\<dots> = Inr ((pre @ t @ NUL # ws) @ terminated bs @ NUL # rest,
            fields_after (length (pre @ t @ NUL # ws)) bs (note_field (length pre) t fs))"
    unfolding b' q by (rule ih)
  finally show ?case
    by (simp add: b terminated_Cons w add.assoc)
qed

lemma scan_fields_blocks:
  assumes "list_all field_and_space bs"
  shows "scan_fields (pre @ flat bs @ NUL # rest) (length pre) fs
     = Inr (pre @ terminated bs @ NUL # rest, fields_after (length pre) bs fs)"
proof -
  from assms have "list_all token_and_space bs"
    by (simp add: list_all_iff field_is_token)
  then show ?thesis by (rule scan_fields_tokens)
qed

lemma keys_exclusive:
  "starts_with t ''resume_offset='' \<Longrightarrow> \<not> starts_with t ''resume=''"
  "starts_with t ''no_console_suspend='' \<Longrightarrow> \<not> starts_with t ''resume=''"
  "starts_with t ''no_console_suspend='' \<Longrightarrow> \<not> starts_with t ''resume_offset=''"
  by (auto simp: starts_with_iff)

lemma note_field_getters:
  "resume_field (note_field p t fs)
     = (if starts_with t ''resume='' then Some (p + 7) else resume_field fs)"
  "resume_offset_field (note_field p t fs)
     = (if starts_with t ''resume_offset='' then Some (p + 14) else resume_offset_field fs)"
  "no_console_suspend_field (note_field p t fs)
     = (if starts_with t ''no_console_suspend='' then Some (p + 19)
        else no_console_suspend_field fs)"
  using keys_exclusive [of t]
  by (cases "starts_with t ''resume=''"; cases "starts_with t ''resume_offset=''";
      cases "starts_with t ''no_console_suspend=''";
      simp add: note_field_def del: starts_with.simps)+

lemma note_field_getters_length:
  "resume_field (note_field p t fs)
     = (if starts_with t ''resume='' then Some (p + length ''resume='') else resume_field fs)"
  "resume_offset_field (note_field p t fs)
     = (if starts_with t ''resume_offset='' then Some (p + length ''resume_offset='')
        else resume_offset_field fs)"
  "no_console_suspend_field (note_field p t fs)
     = (if starts_with t ''no_console_suspend='' then Some (p + length ''no_console_suspend='')
        else no_console_suspend_field fs)"
  by (simp_all add: note_field_getters del: starts_with.simps)

lemma fields_after_getters:
  "resume_field (fields_after p bs fs) = last_pos ''resume='' p bs (resume_field fs)"
  "resume_offset_field (fields_after p bs fs)
     = last_pos ''resume_offset='' p bs (resume_offset_field fs)"
  "no_console_suspend_field (fields_after p bs fs)
     = last_pos ''no_console_suspend='' p bs (no_console_suspend_field fs)"
  by (induction p bs fs rule: fields_after.induct)
     (simp_all only: fields_after.simps last_pos.simps note_field_getters_length)

lemma cmdline_param_Cons:
  "cmdline_param (t # ts) k =
     (case cmdline_param ts k of
        Some v \<Rightarrow> Some v
      | None \<Rightarrow> if starts_with t k then Some (drop (length k) t) else None)"
  by (auto simp: cmdline_param_def split: list.splits)

lemma cmdline_param_Nil [simp]: "cmdline_param [] k = None"
  by (simp add: cmdline_param_def)

lemma last_pos_value:
  assumes "list_all field_and_space bs" and "NUL \<notin> set s"
  shows "case last_pos k (length pre) bs init of
           None \<Rightarrow> init = None \<and> cmdline_param (map fst bs) k = None
         | Some i \<Rightarrow>
             (cmdline_param (map fst bs) k = None \<and> init = Some i)
             \<or> (\<exists>v. cmdline_param (map fst bs) k = Some v
                  \<and> strcmp_eq (pre @ terminated bs @ NUL # rest) i s = Inr (s = v))"
  using assms(1)
proof (induction bs arbitrary: pre init)
  case Nil
  then show ?case by (cases init) simp_all
next
  case (Cons b bs)
  obtain t w where b: "b = (t, w)" by (cases b)
  from Cons.prems b have fb: "field_and_space (t, w)" and rest_wf: "list_all field_and_space bs"
    by simp_all
  from fb have tn: "NUL \<notin> set t" and wn: "w \<noteq> []"
    by (auto simp: field_and_space_def list_all_iff)
  define init' where "init' = (if starts_with t k then Some (length pre + length k) else init)"
  define pre' where "pre' = pre @ t @ NUL # tl w"
  have lp: "last_pos k (length pre) (b # bs) init = last_pos k (length pre') bs init'"
    using wn by (simp add: b init'_def pre'_def add.assoc)
  have buf: "pre @ terminated (b # bs) @ NUL # rest = pre' @ terminated bs @ NUL # rest"
    by (simp add: b terminated_Cons pre'_def)
  note ih = Cons.IH [OF rest_wf, where pre = pre' and init = init']
  show ?case
  proof (cases "last_pos k (length pre') bs init'")
    case None
    with ih have "init' = None" "cmdline_param (map fst bs) k = None" by simp_all
    then show ?thesis
      unfolding lp None by (simp add: b cmdline_param_Cons init'_def split: if_splits)
  next
    case (Some i)
    with ih consider
      (old) "cmdline_param (map fst bs) k = None" "init' = Some i"
      | (new) v where "cmdline_param (map fst bs) k = Some v"
          "strcmp_eq (pre' @ terminated bs @ NUL # rest) i s = Inr (s = v)"
      by auto
    then show ?thesis
    proof cases
      case old
      show ?thesis
      proof (cases "starts_with t k")
        case True
        then obtain r where r: "t = k @ r" by (auto simp: starts_with_iff)
        with tn have rn: "NUL \<notin> set r" by simp
        from True old have i: "i = length (pre @ k)" by (simp add: init'_def)
        have "strcmp_eq ((pre @ k) @ r @ NUL # (tl w @ terminated bs @ NUL # rest))
                (length (pre @ k)) s = Inr (s = r)"
          by (rule strcmp_eq_reads [OF rn assms(2)])
        then have "strcmp_eq (pre' @ terminated bs @ NUL # rest) i s = Inr (s = r)"
          by (simp add: pre'_def r i)
        moreover have "cmdline_param (map fst (b # bs)) k = Some r"
          using old(1) True by (simp add: b cmdline_param_Cons r)
        ultimately show ?thesis
          unfolding lp Some buf by simp
      next
        case False
        with old show ?thesis
          unfolding lp Some by (simp add: b cmdline_param_Cons init'_def)
      qed
    next
      case new
      then show ?thesis
        unfolding lp Some buf by (simp add: b cmdline_param_Cons)
    qed
  qed
qed

lemma fgets_chunk_line:
  "newline \<notin> set l \<Longrightarrow> length l < room \<Longrightarrow> fgets_chunk room (l @ newline # r) = (l @ [newline], r)"
proof (induction l arbitrary: room)
  case Nil
  then show ?case by simp
next
  case (Cons c l)
  then have "fgets_chunk (room - 1) (l @ newline # r) = (l @ [newline], r)"
    by (intro Cons.IH) auto
  with Cons.prems show ?case by auto
qed

lemma newline_space [simp]: "isspace newline"
  by (simp add: isspace_def newline_def)

lemma newline_not_NUL [simp]: "newline \<noteq> NUL" "NUL \<noteq> newline"
  by (simp_all add: newline_def NUL_def)

lemma flat_chars:
  assumes "list_all field_and_space bs"
  shows "newline \<notin> set (flat bs) \<and> NUL \<notin> set (flat bs)"
  using assms
proof (induction bs)
  case Nil
  then show ?case by simp
next
  case (Cons b bs)
  obtain t w where b: "b = (t, w)" by (cases b)
  from Cons.prems b have "field_and_space (t, w)" and "list_all field_and_space bs" by simp_all
  with Cons.IH show ?case
    by (auto simp: b flat_Cons field_and_space_def list_all_iff)
qed

lemma read_first_line_from_file_line:
  assumes "newline \<notin> set l" "NUL \<notin> set l" "length l + 2 \<le> length buffer0"
  shows "read_first_line_from_file buffer0 (Some (l @ [newline]))
     = Some (l @ NUL # NUL # drop (length l + 2) buffer0)"
proof -
  have c: "fgets_chunk (length buffer0 - 1) (l @ [newline]) = (l @ [newline], [])"
    using assms(1,3) fgets_chunk_line [of l "length buffer0 - 1" "[]"] by simp
  have st: "store_chunk buffer0 (l @ [newline]) = l @ newline # NUL # drop (length l + 2) buffer0"
    by (simp add: store_chunk_def)
  have tw: "takeWhile (\<lambda>c. c \<noteq> newline \<and> c \<noteq> NUL)
              (l @ newline # NUL # drop (Suc (Suc (length l))) buffer0) = l"
    using assms(1,2) by (subst takeWhile_append2) auto
  have c': "fgets_chunk (length buffer0 - Suc 0) (l @ [newline]) = (l @ [newline], [])"
    using c by simp
  show ?thesis
    by (simp add: read_first_line_from_file_def c' st tw Let_def nth_append list_update_append)
qed

lemma digit_not_NUL: "k < 10 \<Longrightarrow> char_of (48 + k :: nat) \<noteq> NUL"
proof
  assume k: "k < 10" and "char_of (48 + k) = NUL"
  then have "(of_char (char_of (48 + k)) :: nat) = of_char NUL" by simp
  then have "(48 + k) mod 256 = (0 :: nat)" by (simp add: NUL_def)
  with k show False by simp
qed

lemma decimal_no_NUL: "NUL \<notin> set (decimal n)"
proof (induction n rule: decimal.induct)
  case (1 n)
  show ?case
  proof (cases "n < 10")
    case True
    then show ?thesis using digit_not_NUL [of n] by (simp add: decimal.simps [of n])
  next
    case False
    then have "NUL \<notin> set (decimal (n div 10))" by (rule "1.IH")
    moreover have "char_of (48 + n mod 10) \<noteq> NUL" by (rule digit_not_NUL) simp
    ultimately show ?thesis using False by (simp add: decimal.simps [of n])
  qed
qed

lemma print_signed_no_NUL: "NUL \<notin> set (print_signed i)"
  using decimal_no_NUL by (auto simp: print_signed_def NUL_def)

lemma last_pos_strcmp:
  assumes "list_all field_and_space bs" and "NUL \<notin> set s"
  shows "case last_pos k 0 bs None of
           None \<Rightarrow> cmdline_param (map fst bs) k = None
         | Some i \<Rightarrow> strcmp_eq (terminated bs @ NUL # rest) i s
                      = Inr (cmdline_param (map fst bs) k = Some s)"
  using last_pos_value [OF assms, where k = k and pre = "[]" and init = None and rest = rest]
  by (auto split: option.splits)

text \<open>
  The check refines the specification's wording on every command line in which white
  space follows each field: it reports a match exactly when the last field for each of
  the three keys has the expected value. \<open>bs\<close> are the fields, each with the white
  space behind it; the line fits the buffer, and the UUID fits a path.
\<close>

theorem is_kernel_cmdline_correct_refines:
  assumes wf: "list_all field_and_space bs" and fit: "length (flat bs) + 2 \<le> length buffer0"
    and uuid: "NUL \<notin> set dev_uuid" "length dev_uuid + 18 < PATH_MAX"
  shows "is_kernel_cmdline_correct buffer0 (Some (flat bs @ [newline])) dev_uuid resume_offset
     = Inr (spec_cmdline_correct (map fst bs) dev_uuid resume_offset)"
proof -
  define tail where "tail = NUL # drop (length (flat bs) + 2) buffer0"
  define init where "init = \<lparr>resume_field = None, resume_offset_field = None,
                   no_console_suspend_field = None\<rparr>"
  define fin where "fin = terminated bs @ NUL # tail"
  define fs where "fs = fields_after 0 bs init"
  from flat_chars [OF wf] have "newline \<notin> set (flat bs)" "NUL \<notin> set (flat bs)" by simp_all
  from read_first_line_from_file_line [OF this fit]
  have rd: "read_first_line_from_file buffer0 (Some (flat bs @ [newline]))
      = Some (flat bs @ NUL # tail)"
    by (simp add: tail_def)
  have sc: "scan_fields (flat bs @ NUL # tail) 0 init = Inr (fin, fs)"
    using scan_fields_blocks [OF wf, of "[]" tail init] by (simp add: fin_def fs_def)
  have g: "resume_field fs = last_pos ''resume='' 0 bs None"
    "resume_offset_field fs = last_pos ''resume_offset='' 0 bs None"
    "no_console_suspend_field fs = last_pos ''no_console_suspend='' 0 bs None"
    by (simp_all only: fs_def fields_after_getters init_def cmdline_fields.simps)
  let ?path = "''/dev/disk/by-uuid/'' @ dev_uuid"
  have pn: "NUL \<notin> set ?path" using uuid(1) by (simp add: NUL_def)
  have pl: "\<not> PATH_MAX \<le> length ?path" using uuid(2) by simp
  note v1 = last_pos_strcmp [OF wf pn, where k = "''resume=''" and rest = tail]
  note v2 = last_pos_strcmp [OF wf print_signed_no_NUL, where k = "''resume_offset=''"
      and rest = tail and i1 = resume_offset]
  have "NUL \<notin> set ''1''" by (simp add: NUL_def)
  note v3 = last_pos_strcmp [OF wf this, where k = "''no_console_suspend=''" and rest = tail]
  show ?thesis
    unfolding is_kernel_cmdline_correct_def rd init_def [symmetric]
    using v1 v2 v3 pl
    by (auto simp add: sc g fin_def [symmetric] spec_cmdline_correct_def Let_def
        split: option.splits bool.splits simp del: starts_with.simps)
qed

lemma scan_while_all: "list_all P xs \<Longrightarrow> scan_while P xs = None"
  by (induction xs) auto

text \<open>
  When no white space follows the last field, the first loop of \<open>next_field\<close> runs on
  behind the two terminators. On the line \<open>quiet\<close> in a buffer that held zero bytes it
  leaves the buffer.
\<close>

lemma is_kernel_cmdline_correct_last_field:
  "is_kernel_cmdline_correct (replicate 1024 NUL) (Some (''quiet'' @ [newline])) dev_uuid
     resume_offset = Inl Undefined_behaviour"
proof -
  define b where "b = ''quiet'' @ NUL # NUL # drop (length ''quiet'' + 2) (replicate 1024 NUL)"
  have r: "read_first_line_from_file (replicate 1024 NUL) (Some (''quiet'' @ [newline])) = Some b"
    unfolding b_def by (rule read_first_line_from_file_line) (simp_all add: newline_def NUL_def)
  have "list_all (\<lambda>c. \<not> isspace c) b"
    by (simp add: b_def isspace_def NUL_def list_all_iff)
  then have "scan_while (\<lambda>c. \<not> isspace c) (drop 0 b) = None"
    by (simp add: scan_while_all)
  moreover have "0 < length b" "b ! 0 \<noteq> NUL"
    by (simp_all add: b_def NUL_def)
  ultimately have n: "next_field b (Some 0) = Inl Undefined_behaviour"
    by (simp add: next_field_def)
  have m: "match_field b 0 fs = Inr fs" for fs
    by (simp add: match_field_def b_def)
  show ?thesis
    unfolding is_kernel_cmdline_correct_def r
    by (simp add: scan_fields.simps [of b 0] m n)
qed


subsection \<open>Sizing policy\<close>

lemma swap_needed_size_tier1:
  "unat r \<le> 2 * GiB \<Longrightarrow> swap_needed_size r = Inr (3 * r) \<and> unat (3 * r) = 3 * unat r"
  by (simp add: swap_needed_size_def GIGA_BYTES_def GiB_def word_le_nat_alt unat_word_ariths)

lemma swap_needed_size_tier2:
  "2 * GiB < unat r \<Longrightarrow> unat r \<le> 8 * GiB \<Longrightarrow>
     swap_needed_size r = Inr (2 * r) \<and> unat (2 * r) = 2 * unat r"
  by (simp add: swap_needed_size_def GIGA_BYTES_def GiB_def word_le_nat_alt unat_word_ariths)

lemma swap_needed_size_tier3:
  "8 * GiB < unat r \<Longrightarrow> unat r \<le> 64 * GiB \<Longrightarrow>
     swap_needed_size r = Inr ((3 * r) div 2) \<and> unat ((3 * r) div 2) = (3 * unat r) div 2"
  by (simp add: swap_needed_size_def GIGA_BYTES_def GiB_def word_le_nat_alt unat_word_ariths
      unat_div)

lemma swap_needed_size_tier4:
  "64 * GiB < unat r \<Longrightarrow> unat r \<le> 256 * GiB \<Longrightarrow>
     swap_needed_size r = Inr ((5 * r) div 4) \<and> unat ((5 * r) div 4) = (5 * unat r) div 4"
  by (simp add: swap_needed_size_def GIGA_BYTES_def GiB_def word_le_nat_alt unat_word_ariths
      unat_div)

lemma swap_needed_size_fatal:
  "256 * GiB < unat r \<Longrightarrow> swap_needed_size r = Inl Exit_failure"
  by (simp add: swap_needed_size_def GIGA_BYTES_def GiB_def word_le_nat_alt)

text \<open>
  Claim C2. For a physical memory of \<open>r\<close> bytes the required swap capacity is \<open>3r\<close>
  up to 2 GiB, \<open>2r\<close> above that up to 8 GiB, \<open>3r/2\<close> up to 64 GiB and \<open>5r/4\<close> up
  to 256 GiB (the two quotients are C's integer division), and the computation ends in
  \<open>log_fatal\<close> above 256 GiB. None of the products wraps around in 64 bits, so the
  results are stated on the natural numbers. At the first boundary, exactly 2 GiB gives
  6 GiB, and 2 GiB plus one byte is doubled, not tripled.
\<close>

theorem swap_needed_size_tiers:
  "(unat r \<le> 2 * GiB \<longrightarrow>
      (\<exists>v. swap_needed_size r = Inr v \<and> unat v = 3 * unat r))
   \<and> (2 * GiB < unat r \<and> unat r \<le> 8 * GiB \<longrightarrow>
      (\<exists>v. swap_needed_size r = Inr v \<and> unat v = 2 * unat r))
   \<and> (8 * GiB < unat r \<and> unat r \<le> 64 * GiB \<longrightarrow>
      (\<exists>v. swap_needed_size r = Inr v \<and> unat v = (3 * unat r) div 2))
   \<and> (64 * GiB < unat r \<and> unat r \<le> 256 * GiB \<longrightarrow>
      (\<exists>v. swap_needed_size r = Inr v \<and> unat v = (5 * unat r) div 4))
   \<and> (256 * GiB < unat r \<longrightarrow> swap_needed_size r = Inl Exit_failure)
   \<and> swap_needed_size (2 * GIGA_BYTES) = Inr (6 * GIGA_BYTES)
   \<and> swap_needed_size (2 * GIGA_BYTES + 1) = Inr (2 * (2 * GIGA_BYTES + 1))
   \<and> unat (2 * (2 * GIGA_BYTES + 1)) = 2 * (2 * GiB + 1)"
proof -
  have b1: "swap_needed_size (2 * GIGA_BYTES) = Inr (6 * GIGA_BYTES)"
    by (simp add: swap_needed_size_def GIGA_BYTES_def)
  have b2: "swap_needed_size (2 * GIGA_BYTES + 1) = Inr (2 * (2 * GIGA_BYTES + 1))"
    by (simp add: swap_needed_size_def GIGA_BYTES_def)
  have b3: "unat (2 * (2 * GIGA_BYTES + 1)) = 2 * (2 * GiB + 1)"
    by (simp add: GIGA_BYTES_def GiB_def)
  show ?thesis
    using swap_needed_size_tier1 [of r] swap_needed_size_tier2 [of r]
      swap_needed_size_tier3 [of r] swap_needed_size_tier4 [of r]
      swap_needed_size_fatal [of r] b1 b2 b3
    by blast
qed

theorem swap_needed_size_tiers_witness:
  "(\<exists>v. swap_needed_size (1 * GIGA_BYTES) = Inr v \<and> unat v = 3 * GiB)
   \<and> (\<exists>v. swap_needed_size (4 * GIGA_BYTES) = Inr v \<and> unat v = 8 * GiB)
   \<and> (\<exists>v. swap_needed_size (16 * GIGA_BYTES + 1) = Inr v \<and> unat v = 24 * GiB + 1)
   \<and> (\<exists>v. swap_needed_size (128 * GIGA_BYTES + 3) = Inr v \<and> unat v = 160 * GiB + 3)
   \<and> swap_needed_size (300 * GIGA_BYTES) = Inl Exit_failure"
proof -
  have u1: "unat (1 * GIGA_BYTES) = GiB" and u2: "unat (4 * GIGA_BYTES) = 4 * GiB"
    and u3: "unat (16 * GIGA_BYTES + 1) = 16 * GiB + 1"
    and u4: "unat (128 * GIGA_BYTES + 3) = 128 * GiB + 3"
    and u5: "unat (300 * GIGA_BYTES) = 300 * GiB"
    by (simp_all add: GIGA_BYTES_def GiB_def)
  show ?thesis
    using swap_needed_size_tiers [of "1 * GIGA_BYTES"] swap_needed_size_tiers [of "4 * GIGA_BYTES"]
      swap_needed_size_tiers [of "16 * GIGA_BYTES + 1"]
      swap_needed_size_tiers [of "128 * GIGA_BYTES + 3"]
      swap_needed_size_tiers [of "300 * GIGA_BYTES"]
    unfolding u1 u2 u3 u4 u5 by (simp add: GiB_def)
qed

subsection \<open>Block-offset resolver\<close>


lemma unat_succ_lt: "(i::uint32_t) < b \<Longrightarrow> unat (i + 1) = unat i + 1"
  by (metis (no_types, lifting) add.commute add_0 inc_i inc_le
        unat_plus_simple unsigned_0 unsigned_1 word_gt_0)

lemma succ_nonzero: "(i::uint32_t) < b \<Longrightarrow> i + 1 \<noteq> 0"
  using unat_succ_lt [of i b] by (auto simp: unat_eq_0 dest!: arg_cong [where f = unat])

lemma scan_blocks_contiguous:
  assumes "\<forall>j. i \<le> j \<and> j < bpp \<longrightarrow> fibmap j = Some (b + j)"
    and "i \<noteq> 0 \<longrightarrow> last' s = b + i - 1"
    and "i = 0 \<longrightarrow> last' s = 0"
    and "num_contiguous_blocks s = i"
    and "i \<le> bpp"
  shows "\<exists>s'. scan_blocks fibmap bpp i s = Inr s' \<and> num_contiguous_blocks s' = bpp
            \<and> first_blknum s' = (if i = 0 \<and> 0 < bpp then b else first_blknum s)"
  using assms
proof (induction n \<equiv> "unat bpp - unat i" arbitrary: i s)
  case 0
  then have "\<not> i < bpp" by (simp add: word_less_nat_alt)
  with "0.prems" have "i = bpp" by simp
  then show ?case using "0.prems" by (auto simp: scan_blocks.simps [of fibmap bpp bpp s])
next
  case (Suc n)
  then have lt: "i < bpp" by (simp add: word_less_nat_alt)
  then have nz: "i + 1 \<noteq> 0" by (rule succ_nonzero)
  have m: "n = unat bpp - unat (i + 1)"
    using Suc.hyps(2) unat_succ_lt [OF lt] by simp
  have q: "fibmap i = Some (b + i)" using Suc.prems(1) lt by simp
  have nobreak: "\<not> (last' s \<noteq> 0 \<and> b + i - last' s \<noteq> 1)"
    using Suc.prems(2,3) by (cases "i = 0") auto
  define s1 where "s1 = (if i = 0 then s\<lparr>first_blknum := b + i\<rparr> else s)"
  define s2 where "s2 = (if first s1 = 0 then s1\<lparr>first := b + i\<rparr> else s1)"
  define s3 where "s3 = s2\<lparr>last' := b + i, num_contiguous_blocks := num_contiguous_blocks s2 + 1\<rparr>"
  have step: "scan_blocks fibmap bpp i s = scan_blocks fibmap bpp (i + 1) s3"
    using lt q nobreak
    by (auto simp: scan_blocks.simps [of fibmap bpp i s] s1_def s2_def s3_def Let_def)
  have p1: "\<forall>j. i + 1 \<le> j \<and> j < bpp \<longrightarrow> fibmap j = Some (b + j)"
  proof (intro allI impI)
    fix j assume "i + 1 \<le> j \<and> j < bpp"
    moreover have "i \<le> i + 1" using unat_succ_lt [OF lt] by (simp add: word_le_nat_alt)
    ultimately show "fibmap j = Some (b + j)" using Suc.prems(1) by auto
  qed
  have p2: "i + 1 \<noteq> 0 \<longrightarrow> last' s3 = b + (i + 1) - 1" by (simp add: s3_def)
  have p3: "i + 1 = 0 \<longrightarrow> last' s3 = 0" using nz by simp
  have p4: "num_contiguous_blocks s3 = i + 1"
    using Suc.prems(4) by (simp add: s3_def s2_def s1_def)
  have p5: "i + 1 \<le> bpp" using lt by (simp add: inc_le)
  from Suc.hyps(1) [OF m p1 p2 p3 p4 p5] obtain s' where
    r: "scan_blocks fibmap bpp (i + 1) s3 = Inr s'" "num_contiguous_blocks s' = bpp"
       "first_blknum s' = (if i + 1 = 0 \<and> 0 < bpp then b else first_blknum s3)"
    by blast
  have "first_blknum s3 = (if i = 0 then b else first_blknum s)"
    by (simp add: s3_def s2_def s1_def)
  with r nz lt show ?case unfolding step by (auto simp: word_gt_0)
qed

lemma get_swap_file_offset_contiguous:
  assumes bs: "blksize \<noteq> 0" and ps: "0 < page_size" "page_size < 2 ^ 32"
    and dv: "uint blksize dvd page_size"
    and run: "\<forall>i. i < word_of_int (page_size div uint blksize) \<longrightarrow> fibmap i = Some (b + i)"
  shows "get_swap_file_offset page_size (Some blksize) fibmap = Inr b"
proof -
  define bpp :: uint32_t where "bpp = word_of_int (page_size div uint blksize)"
  have pos: "0 < uint blksize" using bs by (simp add: word_greater_zero_iff uint_0_iff word_gt_0 less_le)
  have sd: "page_size sdiv uint blksize = page_size div uint blksize"
    using ps pos by (simp add: signed_divide_int_def sgn_if)
  from dv obtain k where k: "page_size = uint blksize * k" by (auto simp: dvd_def)
  have kb: "0 < k" using ps pos k by (simp add: zero_less_mult_iff)
  have kq: "page_size div uint blksize = k" using k pos by simp
  have prod: "uint (bpp * blksize) = page_size"
  proof -
    have "bpp * blksize = word_of_int (k * uint blksize)"
      by (simp add: bpp_def kq)
    also have "k * uint blksize = page_size" using k by (simp add: mult.commute)
    finally have "uint (bpp * blksize) = page_size mod 2 ^ 32"
      by (simp add: uint_word_of_int)
    with ps show ?thesis by simp
  qed
  have bpos: "0 < bpp"
  proof -
    have "bpp \<noteq> 0"
    proof
      assume "bpp = 0"
      then have "uint (bpp * blksize) = 0" by simp
      with prod ps show False by simp
    qed
    then show ?thesis by (simp add: word_gt_0)
  qed
  have "\<forall>j. 0 \<le> j \<and> j < bpp \<longrightarrow> fibmap j = Some (b + j)"
    using run by (simp add: bpp_def)
  from scan_blocks_contiguous [OF this, of scan_init]
  obtain s' where s': "scan_blocks fibmap bpp 0 scan_init = Inr s'"
     "num_contiguous_blocks s' = bpp" "first_blknum s' = b"
    using bpos by (auto simp: scan_init_def)
  show ?thesis
    using bs s' prod by (simp add: get_swap_file_offset_def sd bpp_def [symmetric])
qed

lemma scan_blocks_keeps_first_blknum:
  "scan_blocks fibmap bpp i s = Inr s' \<Longrightarrow> i \<noteq> 0 \<Longrightarrow> first_blknum s' = first_blknum s"
proof (induction n \<equiv> "unat bpp - unat i" arbitrary: i s)
  case 0
  then have "\<not> i < bpp" by (simp add: word_less_nat_alt)
  with "0.prems" show ?case by (simp add: scan_blocks.simps)
next
  case (Suc n)
  then have lt: "i < bpp" by (simp add: word_less_nat_alt)
  then have nz: "i + 1 \<noteq> 0" by (rule succ_nonzero)
  have m: "n = unat bpp - unat (i + 1)"
    using Suc.hyps(2) unat_succ_lt [OF lt] by simp
  from lt Suc.prems obtain blknum where q: "fibmap i = Some blknum"
    by (cases "fibmap i") (auto simp: scan_blocks.simps [of fibmap bpp i s])
  show ?case
  proof (cases "last' s \<noteq> 0 \<and> blknum - last' s \<noteq> 1")
    case True
    with lt q Suc.prems show ?thesis by (simp add: scan_blocks.simps [of fibmap bpp i s])
  next
    case False
    define s2 where "s2 = (if first s = 0 then s\<lparr>first := blknum\<rparr> else s)"
    from False lt q Suc.prems
    have run: "scan_blocks fibmap bpp (i + 1)
            (s2\<lparr>last' := blknum, num_contiguous_blocks := num_contiguous_blocks s2 + 1\<rparr>) = Inr s'"
      by (simp add: scan_blocks.simps [of fibmap bpp i s] s2_def Let_def split: if_splits)
    from Suc.hyps(1) [OF m run nz] show ?thesis by (simp add: s2_def)
  qed
qed

lemma scan_blocks_first_query:
  assumes "scan_blocks fibmap bpp 0 s = Inr s'" and "0 < bpp"
  shows "fibmap 0 = Some (first_blknum s')"
proof -
  from assms obtain blknum where q: "fibmap 0 = Some blknum"
    by (cases "fibmap 0") (auto simp: scan_blocks.simps [of fibmap bpp 0 s])
  define s1 where "s1 = s\<lparr>first_blknum := blknum\<rparr>"
  show ?thesis
  proof (cases "last' s \<noteq> 0 \<and> blknum - last' s \<noteq> 1")
    case True
    with assms q show ?thesis by (auto simp: scan_blocks.simps [of fibmap bpp 0 s])
  next
    case False
    define s2 where "s2 = (if first s1 = 0 then s1\<lparr>first := blknum\<rparr> else s1)"
    from False assms q
    have run: "scan_blocks fibmap bpp (0 + 1)
            (s2\<lparr>last' := blknum, num_contiguous_blocks := num_contiguous_blocks s2 + 1\<rparr>) = Inr s'"
      by (simp add: scan_blocks.simps [of fibmap bpp 0 s] s2_def s1_def Let_def split: if_splits)
    have "first_blknum s' = blknum"
      using scan_blocks_keeps_first_blknum [OF run] by (simp add: s2_def s1_def)
    with q show ?thesis by simp
  qed
qed

text \<open>
  Claim C1 (the code departs from it). A mapping that is contiguous from logical block 0
  for a whole page is resolved to its first physical block: that half holds, and is
  \<open>get_swap_file_offset_contiguous\<close> above. The other half, that a break inside the
  first page always gives the invalid value \<open>- 1\<close> (all bits set), does not: the test
  \<open>last && blknum - last != 1\<close> is skipped whenever the block before was physical
  block 0. With pages of 4096 bytes, blocks of 1024 bytes and the physical blocks
  0, 7, 8, 9, the resolver counts four contiguous blocks and returns 0.
\<close>

theorem get_swap_file_offset_hole_then_run:
  "get_swap_file_offset 4096 (Some 1024) fibmap_hole_then_run = Inr 0
   \<and> fibmap_hole_then_run 0 = Some 0 \<and> fibmap_hole_then_run 1 = Some 7
   \<and> fibmap_hole_then_run 2 = Some 8 \<and> fibmap_hole_then_run 3 = Some 9"
  by code_simp

text \<open>
  Claim C10. Whenever the resolver returns a value other than \<open>- 1\<close> (all bits set),
  the value is the physical block number that the first query, for logical block 0,
  answered. The field \<open>first\<close>, which follows the start of the tracked run, plays no
  part in the result.
\<close>

theorem get_swap_file_offset_first_query:
  assumes "get_swap_file_offset page_size figetbsz fibmap = Inr v" and "v \<noteq> - 1"
  shows "fibmap 0 = Some v"
proof -
  from assms(1) obtain blksize where b: "figetbsz = Some blksize" "blksize \<noteq> 0"
    by (cases figetbsz) (auto simp: get_swap_file_offset_def split: if_splits)
  define bpp :: uint32_t where "bpp = word_of_int (page_size sdiv uint blksize)"
  from assms(1) b obtain s where
    s: "scan_blocks fibmap bpp 0 scan_init = Inr s"
    and v: "v = (if page_size \<le> uint (num_contiguous_blocks s * blksize)
                 then first_blknum s else - 1)"
    by (auto simp: get_swap_file_offset_def bpp_def Let_def split: sum.splits if_splits)
  from v assms(2) have vf: "v = first_blknum s" by (auto split: if_splits)
  show ?thesis
  proof (cases "0 < bpp")
    case True
    from scan_blocks_first_query [OF s True] vf show ?thesis by simp
  next
    case False
    then have "bpp = 0" by (simp add: word_gt_0)
    with s have "s = scan_init" by (simp add: scan_blocks.simps [of fibmap 0 0 scan_init])
    with vf assms(2) show ?thesis by (simp add: scan_init_def)
  qed
qed

theorem get_swap_file_offset_first_query_witness:
  "get_swap_file_offset 4096 (Some 1024) (\<lambda>i. Some (i + 34816)) = Inr 34816
   \<and> (34816 :: uint32_t) \<noteq> - 1
   \<and> (\<lambda>i. Some (i + 34816)) (0 :: uint32_t) = Some (34816 :: uint32_t)"
proof -
  have run: "get_swap_file_offset 4096 (Some 1024) (\<lambda>i. Some (i + 34816)) = Inr 34816"
    by code_simp
  have ne: "(34816 :: uint32_t) \<noteq> - 1" by simp
  from get_swap_file_offset_first_query [OF run ne] run ne show ?thesis by simp
qed

subsection \<open>Swap file locator\<close>

lemma has_prefix_at_self:
  "has_prefix_at (pre @ key @ rest) (length pre) key = Inr True"
proof (induction key arbitrary: pre)
  case Nil
  then show ?case by simp
next
  case (Cons k key)
  have "has_prefix_at ((pre @ [k]) @ key @ rest) (length (pre @ [k])) key = Inr True"
    by (rule Cons.IH)
  then show ?case by (simp add: nth_append)
qed

lemma strcmp_eq_unterminated:
  assumes "c \<noteq> NUL"
  shows "strcmp_eq (pre @ key @ c # rest) (length pre) key = Inr False"
proof -
  have "has_prefix_at (pre @ key @ c # rest) (length pre) key = Inr True"
    by (rule has_prefix_at_self)
  moreover have "(pre @ key @ c # rest) ! (length pre + length key) = c"
    by (simp add: nth_append)
  ultimately show ?thesis using assms by (simp add: strcmp_eq_def)
qed

lemma swaps_line_file_entry:
  assumes name: "name \<noteq> []" "\<forall>x \<in> set name. \<not> isspace x \<and> x \<noteq> NUL"
    and w: "w \<noteq> []" "\<forall>x \<in> set w. isspace x" and c: "c \<noteq> NUL"
  shows "swaps_line (name @ w @ ''file'' @ c # rest) needed_size
     = Inr (name @ NUL # tl w @ ''file'' @ c # rest, None)"
proof -
  from w(1) obtain w0 ws where ww: "w = w0 # ws" by (cases w) auto
  with w(2) have w0: "isspace w0" and ws: "\<forall>x \<in> set ws. isspace x" by auto
  have shape: "name @ w @ ''file'' @ c # rest = [] @ name @ w0 # ws @ CHR ''f'' # (''ile'' @ c # rest)"
    by (simp add: ww)
  have t1: "\<forall>x \<in> set name. \<not> isspace x" using name(2) by simp
  have t2: "name = [] \<or> hd name \<noteq> NUL" using name by (cases name) auto
  have f: "\<not> isspace (CHR ''f'')" by (simp add: isspace_def)
  have nf: "next_field (name @ w @ ''file'' @ c # rest) (Some 0)
      = Inr (name @ NUL # ws @ CHR ''f'' # (''ile'' @ c # rest), Some (length name + 1 + length ws))"
    using next_field_block [OF shape t1 t2 w0 ws f] by simp
  have sc: "strcmp_eq ((name @ NUL # ws) @ ''file'' @ c # rest) (length (name @ NUL # ws)) ''file''
      = Inr False"
    by (rule strcmp_eq_unterminated [OF c])
  have sc': "strcmp_eq (name @ NUL # ws @ CHR ''f'' # (''ile'' @ c # rest))
               (length name + 1 + length ws) ''file'' = Inr False"
    using sc by simp
  show ?thesis
    unfolding swaps_line_def nf using sc by (simp add: ww)
qed

lemma fgets_all_line:
  assumes "newline \<notin> set l" "length l + 1 < n"
  shows "fgets_all n (l @ newline # r) = (l @ [newline]) # fgets_all n r"
proof -
  have "fgets_chunk (n - 1) (l @ newline # r) = (l @ [newline], r)"
    using assms by (intro fgets_chunk_line) auto
  with assms(2) show ?thesis
    by (subst fgets_all.simps) simp
qed

lemma fgets_all_Nil [simp]: "fgets_all n [] = []"
  by (simp add: fgets_all.simps)

lemma tab_space [simp]: "isspace tab" "tab \<noteq> NUL" "tab \<noteq> newline"
  by (simp_all add: isspace_def tab_def NUL_def newline_def)

lemma fgets_all_header:
  assumes "41 \<le> n"
  shows "fgets_all n (proc_swaps_header @ r) = proc_swaps_header # fgets_all n r"
proof -
  define h where "h = ''Filename'' @ replicate 4 tab @ ''Type'' @ replicate 2 tab @ ''Size''
       @ replicate 2 tab @ ''Used'' @ replicate 2 tab @ ''Priority''"
  have e: "proc_swaps_header = h @ [newline]" by (simp add: proc_swaps_header_def h_def)
  have "newline \<notin> set h" by (auto simp: h_def newline_def tab_def)
  moreover have "length h + 1 < n" using assms by (simp add: h_def)
  ultimately have "fgets_all n (h @ newline # r) = (h @ [newline]) # fgets_all n r"
    by (rule fgets_all_line)
  then show ?thesis by (simp add: e)
qed

lemma fgets_all_entry:
  assumes "64 \<le> n"
  shows "fgets_all n (proc_swaps_entry @ r) = proc_swaps_entry # fgets_all n r"
proof -
  define h where "h = ''/swapfile'' @ replicate 31 (CHR 0x20) @ ''file'' @ replicate 2 tab @ ''2097148''
       @ replicate 2 tab @ ''0'' @ replicate 2 tab @ ''-2''"
  have e: "proc_swaps_entry = h @ [newline]" by (simp add: proc_swaps_entry_def h_def)
  have "newline \<notin> set h" by (auto simp: h_def newline_def tab_def)
  moreover have "length h + 1 < n" using assms by (simp add: h_def)
  ultimately have "fgets_all n (h @ newline # r) = (h @ [newline]) # fgets_all n r"
    by (rule fgets_all_line)
  then show ?thesis by (simp add: e)
qed


text \<open>
  Claim C6 (the code departs from it). The locator is to return the first entry of type
  \<open>file\<close> in the swap table whose size is at least the required capacity. The code
  compares the type column with \<open>"file"\<close> while the column still runs on into the rest
  of the line (\<open>next_field\<close> ends a field only when it is called on that field), so
  the comparison fails on every entry that has a size column, and the entry is skipped
  (\<open>swaps_line_file_entry\<close>). With the swap table \<open>proc_swaps_one_file\<close>, whose one
  entry is a swap file of 2097148 KiB, and a required capacity of 1 MiB, the locator
  reports that nothing was found when no file is at the well-known path, and reports
  the file at the well-known path, 5 bytes long, when there is one. The other parts
  of the claim hold in the model: the file at the well-known path is reported with its
  own size, also when it is too small, and the function has no effect on the system.
\<close>

theorem find_swap_file_misses_entry:
  "find_swap_file (replicate 1024 NUL) (Some proc_swaps_one_file) None 1048576 = Inr None
   \<and> find_swap_file (replicate 1024 NUL) (Some proc_swaps_one_file) (Some (True, 5)) 1048576
       = Inr (Some \<lparr>capacity = 5, path = swap_file_name\<rparr>)"
proof -
  have ch: "fgets_all 1024 proc_swaps_one_file
      = [proc_swaps_header, proc_swaps_entry]"
    using fgets_all_header [of 1024 "proc_swaps_entry"] fgets_all_entry [of 1024 "[]"]
    by (simp add: proc_swaps_one_file_def)
  have ln: "swaps_line (store_chunk b proc_swaps_entry) n
      = Inr (''/swapfile'' @ NUL # tl (replicate 31 (CHR 0x20)) @ ''file'' @ tab
               # (tab # ''2097148'' @ replicate 2 tab @ ''0'' @ replicate 2 tab @ ''-2''
                   @ [newline] @ NUL # drop (length proc_swaps_entry + 1) b), None)" for b n
  proof -
    have "store_chunk b proc_swaps_entry
        = ''/swapfile'' @ replicate 31 (CHR 0x20) @ ''file'' @ tab
           # (tab # ''2097148'' @ replicate 2 tab @ ''0'' @ replicate 2 tab @ ''-2''
                   @ [newline] @ NUL # drop (length proc_swaps_entry + 1) b)"
      by (simp add: store_chunk_def proc_swaps_entry_def numeral_2_eq_2)
    moreover have "swaps_line (''/swapfile'' @ replicate 31 (CHR 0x20) @ ''file'' @ tab
           # (tab # ''2097148'' @ replicate 2 tab @ ''0'' @ replicate 2 tab @ ''-2''
                   @ [newline] @ NUL # drop (length proc_swaps_entry + 1) b)) n
        = Inr (''/swapfile'' @ NUL # tl (replicate 31 (CHR 0x20)) @ ''file'' @ tab
               # (tab # ''2097148'' @ replicate 2 tab @ ''0'' @ replicate 2 tab @ ''-2''
                   @ [newline] @ NUL # drop (length proc_swaps_entry + 1) b), None)"
      by (rule swaps_line_file_entry) (auto simp: isspace_def NUL_def tab_def)
    ultimately show ?thesis by simp
  qed
  have lp: "swaps_loop b [proc_swaps_entry] n = Inr None" for b n
    by (simp add: ln)
  show ?thesis
    by (simp add: find_swap_file_def ch ln)
qed
subsection \<open>The concrete systems, evaluated\<close>

lemma vm_fields [simp]:
  "hibernation_enabled vm" "physical_memory vm = Inr 4294967296" "sysconf_page_size vm = 4096"
  "file_contents vm = vm_files" "writable vm = (\<lambda>p. True)"
  "access_ok vm = (\<lambda>p. p = ''/etc/default/grub'' \<or> p = ''/boot/grub/grub.cfg''
                      \<or> p = ''/usr/lib/udev/rules.d'')"
  "directory_empty vm = (\<lambda>p. True)"
  "exec_in_path vm = (\<lambda>p. p = ''update-grub2'' \<or> p = ''e4defrag'' \<or> p = ''udevadm'')"
  "spawn_ok vm = (\<lambda>p args. True)" "statfs_type vm = (\<lambda>p. Some EXT4_SUPER_MAGIC)"
  "swaps_buffer0 vm = replicate 1024 NUL" "cmdline_buffer0 vm = replicate 1024 NUL"
  "stat_swap_file_name vm = None" "swapoff_result vm = None" "unlink_ok vm" "open_creat_ok vm"
  "getflags_ok vm" "ftruncate_result vm = None" "fallocate_open_ok vm"
  "fallocate_result vm = None" "pwrite_open_ok vm" "mounts_readable vm"
  "root_device_open vm = Some True" "blkssizeget vm = Some 512" "root_f_bsize vm = Some 4096"
  "pwrite_ok vm = (\<lambda>ofs. True)" "uname_release vm = Some ''5.15.0-1040-azure''"
  "chmod_ok vm" "swapon_result vm = None" "snapshot_open_ok vm"
  "open_rdonly_ok vm = (\<lambda>p. True)" "fstat_answer vm = (\<lambda>p. Some (True, 2049))"
  "ioctl_figetbsz vm = (\<lambda>p. Some 4096)" "ioctl_fibmap vm = (\<lambda>p i. Some (i + 34816))"
  "set_swap_area_ok vm" "disk_uuid vm = (\<lambda>p. Inr (Some ''0a1b''))"
  "systemctl_path vm = Some ''/bin/systemctl''" "is_hyperv vm" "asprintf_ok vm"
  by (simp_all add: vm_def)

lemma vm_needed: "swap_needed_size 4294967296 = Inr 8589934592"
  by (simp add: swap_needed_size_def GIGA_BYTES_def)

lemma vm_find:
  "find_swap_file (replicate 1024 NUL) (Some proc_swaps_header) st n
   = Inr (case st of None \<Rightarrow> None | Some (is_reg, st_size) \<Rightarrow>
            if \<not> is_reg then None else Some \<lparr>capacity = st_size, path = swap_file_name\<rparr>)"
proof -
  have "fgets_all 1024 proc_swaps_header = [proc_swaps_header]"
    using fgets_all_header [of 1024 "[]"] by simp
  then show ?thesis
    by (simp add: find_swap_file_def split: option.splits)
qed

lemma spaced_fields:
  "list_all (\<lambda>t. t \<noteq> [] \<and> list_all (\<lambda>x. \<not> isspace x \<and> x \<noteq> NUL) t) ts
     \<Longrightarrow> list_all field_and_space (spaced ts)"
  by (induction ts) (auto simp: spaced_def field_and_space_def isspace_def newline_def)

lemma map_fst_spaced [simp]: "map fst (spaced ts) = ts"
  by (simp add: spaced_def comp_def)

lemma vm_cmdline:
  "is_kernel_cmdline_correct (replicate 1024 NUL) (Some (flat (spaced vm_cmdline_fields) @ [newline]))
     ''0a1b'' 34816 = Inr False"
proof -
  have wf: "list_all field_and_space (spaced vm_cmdline_fields)"
    by (rule spaced_fields) (simp add: vm_cmdline_fields_def isspace_def NUL_def)
  have fit: "length (flat (spaced vm_cmdline_fields)) + 2 \<le> length (replicate 1024 NUL)"
    by (simp add: flat_def spaced_def vm_cmdline_fields_def)
  have u: "NUL \<notin> set ''0a1b''" "length ''0a1b'' + 18 < PATH_MAX"
    by (simp_all add: NUL_def PATH_MAX_def)
  have "\<not> spec_cmdline_correct vm_cmdline_fields ''0a1b'' 34816"
    by (simp add: spec_cmdline_correct_def cmdline_param_def vm_cmdline_fields_def)
  with is_kernel_cmdline_correct_refines [OF wf fit u, of 34816] show ?thesis by simp
qed

lemma decimal_34816: "print_signed 34816 = ''34816''"
  by (simp add: print_signed_def decimal.simps char_of_def bit_Suc bit_0)

lemma vm_configured_cmdline:
  "is_kernel_cmdline_correct (replicate 1024 NUL)
     (Some (flat (spaced vm_configured_cmdline_fields) @ [newline])) ''0a1b'' 34816 = Inr True"
proof -
  have wf: "list_all field_and_space (spaced vm_configured_cmdline_fields)"
    by (rule spaced_fields)
       (simp add: vm_configured_cmdline_fields_def vm_cmdline_fields_def isspace_def NUL_def)
  have fit: "length (flat (spaced vm_configured_cmdline_fields)) + 2 \<le> length (replicate 1024 NUL)"
    by (simp add: flat_def spaced_def vm_configured_cmdline_fields_def vm_cmdline_fields_def)
  have u: "NUL \<notin> set ''0a1b''" "length ''0a1b'' + 18 < PATH_MAX"
    by (simp_all add: NUL_def PATH_MAX_def)
  have "spec_cmdline_correct vm_configured_cmdline_fields ''0a1b'' 34816"
    by (simp add: spec_cmdline_correct_def cmdline_param_def vm_configured_cmdline_fields_def
        vm_cmdline_fields_def decimal_34816)
  with is_kernel_cmdline_correct_refines [OF wf fit u, of 34816] show ?thesis by simp
qed

lemma vm_offset: "get_swap_file_offset 4096 (Some 4096) (\<lambda>i. Some (i + 34816)) = Inr 34816"
  by code_simp

lemma vm_break_offset:
  "get_swap_file_offset 4096 (Some 1024) (\<lambda>i. if i < 2 then Some (i + 5) else Some (i + 7))
     = Inr (- 1)"
  by code_simp

lemma vm_files_simps [simp]:
  "vm_files ''/proc/swaps'' = Some proc_swaps_header"
  "vm_files ''/etc/fstab'' = Some (''UUID=0a1b / ext4 defaults 0 1'' @ [newline])"
  "vm_files ''/proc/cmdline'' = Some (flat (spaced vm_cmdline_fields) @ [newline])"
  "vm_files ''/etc/default/grub'' = Some (vm_grub_line @ [newline])"
  "vm_configured_files ''/proc/swaps'' = Some proc_swaps_header"
  "vm_configured_files ''/etc/fstab'' = Some (''UUID=0a1b / ext4 defaults 0 1'' @ [newline])"
  "vm_configured_files ''/proc/cmdline''
     = Some (flat (spaced vm_configured_cmdline_fields) @ [newline])"
  by (simp_all add: vm_files_def vm_configured_files_def)

lemmas run_defs =
  main_def main_swap_file_def create_swap_file_def
  create_swap_file_with_size_def fs_set_flags_def is_file_on_fs_def
  try_zeroing_out_with_fallocate_def perform_fs_specific_checks_def
  try_spawn_and_wait_def spawn_and_wait_def ensure_swap_is_enabled_def
  update_swap_offset_def get_swap_area_def update_kernel_cmdline_params_for_grub_def
  ensure_udev_rules_are_installed_def
  fst_then_run snd_then_run fst_bind_run snd_bind_run Let_def

lemmas vm_evals = vm_needed vm_find vm_offset vm_break_offset vm_cmdline vm_configured_cmdline


lemmas vm_envs = vm_disk_full_def vm_xfs_def vm_xfs_write_fails_def vm_small_file_def
  vm_no_bootloader_def vm_configured_def vm_not_regular_def vm_break_def vm_swap_def
  vm_no_memory_def



lemma vm_main_swap_file:
  "snd (main_swap_file vm 8589934592) = Inr (vm_swap, True)"
  "snd (main_swap_file vm_no_bootloader 8589934592) = Inr (vm_swap, True)"
  "snd (main_swap_file vm_not_regular 8589934592) = Inr (vm_swap, True)"
  "snd (main_swap_file vm_break 8589934592) = Inr (vm_swap, True)"
  "snd (main_swap_file vm_small_file 8589934592) = Inr (vm_swap, True)"
  by (simp_all add: vm_envs run_defs vm_evals)


lemma vm_small_main:
  "take 2 (fst (main vm_small_file)) = [Swapoff swap_file_name, Unlink swap_file_name]"
  "Swapon swap_file_name \<in> set (fst (main vm_small_file))"
  by (simp_all add: vm_envs run_defs vm_evals)




lemma xfs_needed: "swap_needed_size 4096 = Inr 12288"
  by (simp add: swap_needed_size_def GIGA_BYTES_def)

lemma main_vm_xfs_small: "main vm_xfs_small = (vm_xfs_events, Inr 0)"
  by (simp add: vm_xfs_small_def vm_xfs_def run_defs vm_evals xfs_needed vm_xfs_events_def
      vm_args_def try_zero_out_with_write_def determine_block_size_for_root_fs_def
      write_pattern.simps prod_eq_iff)

text \<open>
  When no white space follows the last field, what \<open>is_kernel_cmdline_correct\<close>
  returns depends on the bytes behind the line. On the command line of the configured
  machine, as the kernel writes it, the three parameters match; with \<open> resume=x \<close>
  behind the line the check returns \<open>false\<close>, and \<open>update_swap_offset\<close> rewrites the
  GRUB settings file.
\<close>

lemma stale_read:
  "read_first_line_from_file vm_stale_buffer (Some (vm_kernel_cmdline @ [newline]))
     = Some (flat vm_stale_blocks @ NUL # replicate 892 NUL)"
proof -
  have "read_first_line_from_file vm_stale_buffer (Some (vm_kernel_cmdline @ [newline]))
     = Some (vm_kernel_cmdline @ NUL # NUL # drop (length vm_kernel_cmdline + 2) vm_stale_buffer)"
    by (rule read_first_line_from_file_line)
       (simp_all add: vm_kernel_cmdline_def vm_stale_buffer_def newline_def NUL_def)
  moreover have "length vm_kernel_cmdline = 119"
    by (simp add: vm_kernel_cmdline_def)
  moreover have "replicate 893 NUL = NUL # replicate 892 NUL"
    by (simp add: replicate_Suc [symmetric] del: replicate_Suc)
  ultimately show ?thesis
    by (simp add: vm_stale_buffer_def vm_stale_blocks_def flat_def spaced_def
        vm_cmdline_fields_def vm_kernel_cmdline_def)
qed

lemma stale_tokens: "list_all token_and_space vm_stale_blocks"
  by (simp add: vm_stale_blocks_def spaced_def vm_cmdline_fields_def token_and_space_def
      isspace_def NUL_def)

lemma stale_fields:
  "resume_field (fields_after 0 vm_stale_blocks
      \<lparr>resume_field = None, resume_offset_field = None, no_console_suspend_field = None\<rparr>)
     = Some 129"
  "resume_offset_field (fields_after 0 vm_stale_blocks
      \<lparr>resume_field = None, resume_offset_field = None, no_console_suspend_field = None\<rparr>)
     = Some 93"
  "no_console_suspend_field (fields_after 0 vm_stale_blocks
      \<lparr>resume_field = None, resume_offset_field = None, no_console_suspend_field = None\<rparr>)
     = Some 118"
  by code_simp+

lemma stale_value:
  "strcmp_eq (terminated vm_stale_blocks @ NUL # replicate 892 NUL) 129
     ''/dev/disk/by-uuid/0a1b'' = Inr False"
  by (simp add: strcmp_eq_def vm_stale_blocks_def spaced_def vm_cmdline_fields_def
      terminated_def nth_append NUL_def)

lemma is_kernel_cmdline_correct_stale_bytes:
  "is_kernel_cmdline_correct vm_stale_buffer (Some (vm_kernel_cmdline @ [newline])) ''0a1b'' 34816
     = Inr False"
  unfolding is_kernel_cmdline_correct_def stale_read
  using scan_fields_tokens [OF stale_tokens, of "[]" "replicate 892 NUL"]
  by (simp add: stale_fields stale_value PATH_MAX_def)

lemma vm_kernel_cmdline_fields:
  "vm_kernel_cmdline
     = flat (spaced (butlast vm_configured_cmdline_fields)) @ last vm_configured_cmdline_fields"
  "spec_cmdline_correct vm_configured_cmdline_fields ''0a1b'' 34816"
  by (simp_all add: vm_kernel_cmdline_def vm_configured_cmdline_fields_def vm_cmdline_fields_def
      flat_def spaced_def spec_cmdline_correct_def cmdline_param_def decimal_34816)

lemma update_swap_offset_stale_bytes:
  "update_swap_offset vm_stale vm_swap =
     ([Set_swap_area 2049 34816,
       Write_file ''/etc/default/grub'' (grub_rewrite vm_args (Some (vm_grub_line @ [newline]))),
       Spawn ''update-grub2'' []], Inr True)"
  by (simp add: vm_stale_def vm_configured_def vm_swap_def run_defs vm_evals vm_args_def
      is_kernel_cmdline_correct_stale_bytes prod_eq_iff)


subsection \<open>Swap file allocator\<close>

text \<open>
  Claim C8. In \<open>create_swap_file\<close>: when the fast method is performed and
  \<open>fallocate\<close> fails, with \<open>ENOSPC\<close> or any other error, the run ends in
  \<open>log_fatal\<close>, no pattern is written and \<open>fallocate\<close> is called once. A pattern is
  written only when the file is on XFS or the file could not be opened for the fast
  method. When the slow method is used and does not succeed, the run ends in
  \<open>log_fatal\<close>.
\<close>

theorem create_swap_file_cascade:
  "(open_creat_ok env \<and> ftruncate_result env = None
      \<and> \<not> is_file_on_fs env swap_file_name XFS_SUPER_MAGIC
      \<and> fallocate_open_ok env \<and> fallocate_result env = Some e
    \<longrightarrow> snd (create_swap_file env needed_size) = Inl Exit_failure
        \<and> (\<forall>k. Pwrite swap_file_name k \<notin> set (fst (create_swap_file env needed_size)))
        \<and> filter (\<lambda>e. \<exists>p n. e = Fallocate p n) (fst (create_swap_file env needed_size))
            = [Fallocate swap_file_name needed_size])
   \<and> (Pwrite p k \<in> set (fst (create_swap_file env needed_size))
    \<longrightarrow> is_file_on_fs env swap_file_name XFS_SUPER_MAGIC \<or> \<not> fallocate_open_ok env)
   \<and> ((is_file_on_fs env swap_file_name XFS_SUPER_MAGIC \<or> \<not> fallocate_open_ok env)
      \<and> snd (try_zero_out_with_write env swap_file_name needed_size) \<noteq> Inr True
    \<longrightarrow> snd (create_swap_file env needed_size) = Inl Exit_failure)"
proof (intro conjI impI)
  assume a: "open_creat_ok env \<and> ftruncate_result env = None
      \<and> \<not> is_file_on_fs env swap_file_name XFS_SUPER_MAGIC
      \<and> fallocate_open_ok env \<and> fallocate_result env = Some e"
  then have eq: "create_swap_file env needed_size =
     (fst (create_swap_file_with_size env swap_file_name needed_size)
        @ [Ioprio_set, Fallocate swap_file_name needed_size], Inl Exit_failure)"
    by (intro create_swap_file_fast_fatal) simp_all
  show "snd (create_swap_file env needed_size) = Inl Exit_failure"
    by (simp add: eq)
  show "\<forall>k. Pwrite swap_file_name k \<notin> set (fst (create_swap_file env needed_size))"
    by (auto simp: eq dest: create_with_size_events)
  have "filter (\<lambda>e. \<exists>p n. e = Fallocate p n)
          (fst (create_swap_file_with_size env swap_file_name needed_size)) = []"
    by (auto simp: filter_empty_conv dest: create_with_size_events)
  then show "filter (\<lambda>e. \<exists>p n. e = Fallocate p n) (fst (create_swap_file env needed_size))
            = [Fallocate swap_file_name needed_size]"
    by (simp add: eq)
next
  assume "Pwrite p k \<in> set (fst (create_swap_file env needed_size))"
  then show "is_file_on_fs env swap_file_name XFS_SUPER_MAGIC \<or> \<not> fallocate_open_ok env"
    by (rule create_swap_file_pwrite)
next
  assume "(is_file_on_fs env swap_file_name XFS_SUPER_MAGIC \<or> \<not> fallocate_open_ok env)
      \<and> snd (try_zero_out_with_write env swap_file_name needed_size) \<noteq> Inr True"
  then show "snd (create_swap_file env needed_size) = Inl Exit_failure"
    using create_swap_file_slow_fatal by blast
qed

theorem create_swap_file_cascade_witness:
  "fallocate_result vm_disk_full = Some ENOSPC
   \<and> snd (create_swap_file vm_disk_full 8589934592) = Inl Exit_failure
   \<and> filter (\<lambda>e. \<exists>p n. e = Fallocate p n) (fst (create_swap_file vm_disk_full 8589934592))
        = [Fallocate swap_file_name 8589934592]
   \<and> Pwrite swap_file_name 4096 \<in> set (fst (create_swap_file vm_xfs 12288))
   \<and> is_file_on_fs vm_xfs swap_file_name XFS_SUPER_MAGIC
   \<and> snd (try_zero_out_with_write vm_xfs_write_fails swap_file_name 12288) = Inr False
   \<and> snd (create_swap_file vm_xfs_write_fails 12288) = Inl Exit_failure"
proof -
  have full: "snd (create_swap_file vm_disk_full 8589934592) = Inl Exit_failure
      \<and> filter (\<lambda>e. \<exists>p n. e = Fallocate p n) (fst (create_swap_file vm_disk_full 8589934592))
           = [Fallocate swap_file_name 8589934592]"
    using create_swap_file_cascade [where env = vm_disk_full and e = ENOSPC
            and needed_size = 8589934592 and p = swap_file_name and k = 0]
    by (simp add: vm_disk_full_def is_file_on_fs_def)
  have xfs: "is_file_on_fs vm_xfs swap_file_name XFS_SUPER_MAGIC"
    by (simp add: vm_xfs_def is_file_on_fs_def)
  have pw: "Pwrite swap_file_name 4096 \<in> set (fst (create_swap_file vm_xfs 12288))"
    by (simp add: vm_xfs_def run_defs try_zero_out_with_write_def
          determine_block_size_for_root_fs_def write_pattern.simps)
  have slow: "snd (try_zero_out_with_write vm_xfs_write_fails swap_file_name 12288) = Inr False"
    by (simp add: vm_xfs_def vm_xfs_write_fails_def run_defs try_zero_out_with_write_def
          determine_block_size_for_root_fs_def write_pattern.simps)
  have fatal: "snd (create_swap_file vm_xfs_write_fails 12288) = Inl Exit_failure"
    using create_swap_file_cascade [where env = vm_xfs_write_fails and e = ENOSPC
            and needed_size = 12288 and p = swap_file_name and k = 0] slow
    by (simp add: vm_xfs_def vm_xfs_write_fails_def is_file_on_fs_def)
  have "is_file_on_fs vm_xfs swap_file_name XFS_SUPER_MAGIC \<or> \<not> fallocate_open_ok vm_xfs"
    using create_swap_file_cascade [where env = vm_xfs and e = ENOSPC
            and needed_size = 12288 and p = swap_file_name and k = 4096] pw
    by blast
  with full pw slow fatal show ?thesis
    by (simp add: vm_disk_full_def xfs)
qed


subsection \<open>Resume parameter reconciler\<close>




text \<open>
  Claim C7. When the swap file is not a regular file, or the resolver returns \<open>- 1\<close>
  (all bits set), \<open>get_swap_area\<close> ends in \<open>log_fatal\<close>; \<open>update_swap_offset\<close> has
  no event at all, and it returns failure (the snapshot device did not open) or ends in
  \<open>log_fatal\<close>. A run of \<open>main\<close> that comes to this swap file exits with status 1,
  and no event of it registers a swap area or patches the boot configuration.
\<close>

theorem invalid_offset_never_used:
  assumes "(\<exists>st_dev. fstat_answer env (path swap) = Some (False, st_dev))
     \<or> get_swap_file_offset (sysconf_page_size env) (ioctl_figetbsz env (path swap))
          (ioctl_fibmap env (path swap)) = Inr (- 1)"
  shows "get_swap_area env swap = Inl Exit_failure
     \<and> (update_swap_offset env swap = ([], Inr False)
          \<or> update_swap_offset env swap = ([], Inl Exit_failure))
     \<and> (\<forall>ram needed created.
           hibernation_enabled env \<and> physical_memory env = Inr ram \<and> ram \<noteq> 0
           \<and> swap_needed_size ram = Inr needed
           \<and> snd (main_swap_file env needed) = Inr (swap, created)
         \<longrightarrow> snd (main env) = Inl Exit_failure
             \<and> (\<forall>e \<in> set (fst (main env)). before_update e))"
proof -
  from assms have g: "get_swap_area env swap = Inl Exit_failure"
    by (rule get_swap_area_rejects)
  then have u: "update_swap_offset env swap = ([], Inr False)
          \<or> update_swap_offset env swap = ([], Inl Exit_failure)"
    by (rule update_swap_offset_rejected)
  have m: "snd (main env) = Inl Exit_failure \<and> (\<forall>e \<in> set (fst (main env)). before_update e)"
    if en: "hibernation_enabled env" "physical_memory env = Inr ram" "ram \<noteq> 0"
      "swap_needed_size ram = Inr needed"
      and s: "snd (main_swap_file env needed) = Inr (swap, created)"
    for ram needed created
  proof -
    note st = main_stages [OF en]
    have e1: "\<forall>e \<in> set (fst (main_swap_file env needed)). before_update e"
      using main_swap_file_events by blast
    have e2: "\<forall>e \<in> set (fst (ensure_swap_is_enabled env swap created)). before_update e"
      by (auto simp: before_update_def is_boot_patch_def initramfs_resume_conf_def
          dest!: ensure_swap_is_enabled_events)
    from u have "snd (main env) = Inl Exit_failure"
      unfolding st using s
      by (auto simp: snd_bind_run snd_then_run split: sum.splits
          dest: ensure_swap_is_enabled_result)
    moreover from u have "\<forall>e \<in> set (fst (main env)). before_update e"
      unfolding st using s e1 e2
      by (auto simp: fst_bind_run fst_then_run snd_bind_run snd_then_run split: sum.splits)
    ultimately show ?thesis by simp
  qed
  from g u m show ?thesis by blast
qed

theorem invalid_offset_never_used_witness:
  "fstat_answer vm_not_regular (path vm_swap) = Some (False, 2049)
   \<and> get_swap_area vm_not_regular vm_swap = Inl Exit_failure
   \<and> update_swap_offset vm_not_regular vm_swap = ([], Inl Exit_failure)
   \<and> snd (main_swap_file vm_not_regular 8589934592) = Inr (vm_swap, True)
   \<and> snd (main vm_not_regular) = Inl Exit_failure
   \<and> list_all before_update (fst (main vm_not_regular))
   \<and> get_swap_file_offset (sysconf_page_size vm_break) (ioctl_figetbsz vm_break (path vm_swap))
        (ioctl_fibmap vm_break (path vm_swap)) = Inr (- 1)
   \<and> get_swap_area vm_break vm_swap = Inl Exit_failure
   \<and> snd (main vm_break) = Inl Exit_failure
   \<and> list_all before_update (fst (main vm_break))"
proof -
  have reg: "fstat_answer vm_not_regular (path vm_swap) = Some (False, 2049)"
    by (simp add: vm_not_regular_def)
  have brk: "get_swap_file_offset (sysconf_page_size vm_break)
      (ioctl_figetbsz vm_break (path vm_swap)) (ioctl_fibmap vm_break (path vm_swap)) = Inr (- 1)"
    by (simp add: vm_break_def vm_evals)
  have en: "hibernation_enabled vm_not_regular \<and> physical_memory vm_not_regular = Inr 4294967296"
    "hibernation_enabled vm_break \<and> physical_memory vm_break = Inr 4294967296"
    by (simp_all add: vm_envs)
  note a = invalid_offset_never_used [where env = vm_not_regular and swap = vm_swap]
  note b = invalid_offset_never_used [where env = vm_break and swap = vm_swap]
  have a1: "get_swap_area vm_not_regular vm_swap = Inl Exit_failure
      \<and> (update_swap_offset vm_not_regular vm_swap = ([], Inr False)
          \<or> update_swap_offset vm_not_regular vm_swap = ([], Inl Exit_failure))"
    using a reg by simp
  have a2: "snd (main vm_not_regular) = Inl Exit_failure
      \<and> (\<forall>e \<in> set (fst (main vm_not_regular)). before_update e)"
    using a reg en vm_needed vm_main_swap_file(3) by (simp del: Ball_set) blast
  have b1: "get_swap_area vm_break vm_swap = Inl Exit_failure"
    using b brk by simp
  have b2: "snd (main vm_break) = Inl Exit_failure
      \<and> (\<forall>e \<in> set (fst (main vm_break)). before_update e)"
    using b brk en vm_needed vm_main_swap_file(4) by (simp del: Ball_set) blast
  have upd: "snd (update_swap_offset vm_not_regular vm_swap) = Inl Exit_failure"
    by (simp add: vm_envs run_defs)
  from a1 a2 b1 b2 upd reg brk show ?thesis
    by (auto simp: vm_main_swap_file list_all_iff)
qed


subsection \<open>Orchestrator\<close>

text \<open>
  The order of the events when \<open>find_swap_file\<close> reports a swap file whose capacity is
  below the needed size and \<open>main\<close> then activates a swap file: \<open>swapoff\<close> and
  \<open>unlink\<close> of the file found, then the events of \<open>create_swap_file\<close>, then \<open>chmod\<close>
  and \<open>swapon\<close> of the file at the well-known path. The capacity in the record that
  \<open>create_swap_file\<close> returns is the needed size, whatever the size of the file is.
\<close>

lemma small_file_removed_before_creation:
  assumes en: "hibernation_enabled env" "physical_memory env = Inr ram" "ram \<noteq> 0"
    "swap_needed_size ram = Inr needed"
    and found: "find_swap_file (swaps_buffer0 env) (file_contents env ''/proc/swaps'')
                (stat_swap_file_name env) needed = Inr (Some sf)"
    and small: "capacity sf < needed"
    and sw: "Swapon q \<in> set (fst (main env))"
  shows "q = swap_file_name
    \<and> (\<exists>mid rest.
          fst (main env) = Swapoff (path sf) # Unlink (path sf) # mid
                             @ Chmod swap_file_name # Swapon swap_file_name # rest
          \<and> main_swap_file env needed
              = (Swapoff (path sf) # Unlink (path sf) # mid,
                 Inr (\<lparr>capacity = needed, path = swap_file_name\<rparr>, True))
          \<and> mid = fst (create_swap_file env needed)
          \<and> (\<forall>p. Swapon p \<notin> set mid)
          \<and> Open_creat swap_file_name \<in> set mid
          \<and> (Ftruncate swap_file_name needed \<in> set mid
               \<or> is_file_on_fs env swap_file_name XFS_SUPER_MAGIC)
          \<and> (Fallocate swap_file_name needed \<in> set mid \<or> Fdatasync swap_file_name \<in> set mid)
          \<and> Spawn ''mkswap'' [swap_file_name] \<in> set mid)
    \<and> (\<forall>swap created. snd (main_swap_file env needed) = Inr (swap, created)
          \<longrightarrow> needed \<le> capacity swap)"
proof -
  from main_activation [OF en sw] obtain swap created rest where
    r: "snd (main_swap_file env needed) = Inr (swap, created)" and q: "q = path swap"
    and tr: "fst (main env)
               = fst (main_swap_file env needed) @ Chmod (path swap) # Swapon (path swap) # rest"
    by blast
  from main_swap_file_too_small [OF found small r]
  have ev: "fst (main_swap_file env needed)
           = Swapoff (path sf) # Unlink (path sf) # fst (create_swap_file env needed)"
    and cr: "snd (create_swap_file env needed) = Inr swap" and created by simp_all
  note ok = create_swap_file_success [OF cr]
  from ok have swap: "swap = \<lparr>capacity = needed, path = swap_file_name\<rparr>" by simp
  have nosw: "\<forall>p. Swapon p \<notin> set (fst (create_swap_file env needed))"
    using create_swap_file_events [of _ env needed] by blast
  have msf: "main_swap_file env needed
              = (Swapoff (path sf) # Unlink (path sf) # fst (create_swap_file env needed),
                 Inr (\<lparr>capacity = needed, path = swap_file_name\<rparr>, True))"
    using ev r swap \<open>created\<close> by (simp add: prod_eq_iff)
  have cap: "\<forall>swap created. snd (main_swap_file env needed) = Inr (swap, created)
          \<longrightarrow> needed \<le> capacity swap"
    using main_swap_file_capacity by blast
  from q swap have "q = swap_file_name" by simp
  moreover have "fst (main env) = Swapoff (path sf) # Unlink (path sf)
       # fst (create_swap_file env needed) @ Chmod swap_file_name # Swapon swap_file_name # rest"
    using tr ev swap by simp
  ultimately show ?thesis
    using msf nosw ok cap by blast
qed

text \<open>
  On XFS the file that \<open>create_swap_file\<close> leaves behind is shorter than the needed
  size whenever the needed size is a multiple of the block size of the root file system
  and the block size is above four: from an empty file the events of
  \<open>create_swap_file\<close> give a size of at most the needed size less the block size plus
  four. With 4 GiB of memory and blocks of 4096 bytes the file lacks 4092 bytes.
\<close>

lemma write_pattern_offsets:
  "e \<in> set (fst (write_pattern env p bs n ofs)) \<Longrightarrow> bs dvd ofs \<Longrightarrow>
     \<exists>k. e = Pwrite p k \<and> bs dvd k \<and> k < n"
proof (induction env p bs n ofs rule: write_pattern.induct)
  case (1 env p block_size needed_size ofs)
  from "1.prems"(1) show ?case
    by (subst (asm) write_pattern.simps)
       (use "1.IH" "1.prems"(2) in \<open>auto split: if_splits prod.splits\<close>)
qed

lemma file_size_after_bound:
  assumes "n \<le> b"
    and "\<And>e. e \<in> set es \<Longrightarrow>
           (\<forall>s. e \<noteq> Ftruncate p s) \<and> (\<forall>s. e \<noteq> Fallocate p s)
           \<and> (\<forall>k. e = Pwrite p k \<longrightarrow> k + 4 \<le> b)"
  shows "file_size_after env p n es \<le> b"
  using assms unfolding file_size_after_def
proof (induction es arbitrary: n)
  case Nil
  then show ?case by simp
next
  case (Cons e es)
  from Cons.prems(2) [of e] Cons.prems(1) have "size_step env p n e \<le> b"
    by (cases e) (auto simp: size_step_def)
  moreover have "foldl (size_step env p) (size_step env p n e) es \<le> b"
    if "size_step env p n e \<le> b"
    using that Cons.prems(2) by (intro Cons.IH) auto
  ultimately show ?case by simp
qed

lemma create_swap_file_on_xfs_short:
  assumes xfs: "is_file_on_fs env swap_file_name XFS_SUPER_MAGIC"
    and bs: "determine_block_size_for_root_fs env = Inr bs"
    and n: "bs dvd unat needed_size" "needed_size \<noteq> 0" "4 < bs"
  shows "file_size_after env swap_file_name 0 (fst (create_swap_file env needed_size))
           < unat needed_size"
proof -
  from n(1,2) have le: "bs \<le> unat needed_size"
    by (metis dvd_imp_le unat_eq_zero not_gr_zero)
  have "file_size_after env swap_file_name 0 (fst (create_swap_file env needed_size))
      \<le> unat needed_size - bs + 4"
  proof (rule file_size_after_bound)
    fix e
    assume "e \<in> set (fst (create_swap_file env needed_size))"
    then consider "e = Open_creat swap_file_name" | "\<exists>a b. e = Fs_set_flags swap_file_name a b"
      | "e = Ioprio_set" | "e = Fdatasync swap_file_name" | "\<exists>prog args. e = Spawn prog args"
      | k where "e = Pwrite swap_file_name k" "bs dvd k" "k < unat needed_size"
      using xfs bs
      by (auto simp: create_swap_file_def fst_bind_run fst_then_run Let_def
          fst_create_swap_file_with_size fst_spawn_and_wait try_zero_out_with_write_def
          split: sum.splits if_splits
          dest!: perform_fs_specific_checks_events write_pattern_offsets)
    then show "(\<forall>s. e \<noteq> Ftruncate swap_file_name s) \<and> (\<forall>s. e \<noteq> Fallocate swap_file_name s)
           \<and> (\<forall>k. e = Pwrite swap_file_name k \<longrightarrow> k + 4 \<le> unat needed_size - bs + 4)"
    proof cases
      case 6
      from 6(2) n(1) have "bs dvd unat needed_size - k" by (simp add: dvd_diff_nat)
      moreover from 6(3) have "0 < unat needed_size - k" by simp
      ultimately have "bs \<le> unat needed_size - k" by (rule dvd_imp_le)
      with 6 show ?thesis by auto
    qed auto
  qed simp
  with le n(3) show ?thesis by simp
qed

lemma create_swap_file_on_xfs_short_4g:
  "file_size_after (vm\<lparr>statfs_type := (\<lambda>p. Some XFS_SUPER_MAGIC)\<rparr>) swap_file_name 0
     (fst (create_swap_file (vm\<lparr>statfs_type := (\<lambda>p. Some XFS_SUPER_MAGIC)\<rparr>) 8589934592))
     < 8589934592"
  using create_swap_file_on_xfs_short [where env = "vm\<lparr>statfs_type := (\<lambda>p. Some XFS_SUPER_MAGIC)\<rparr>"
      and bs = 4096 and needed_size = 8589934592]
  by (simp add: is_file_on_fs_def determine_block_size_for_root_fs_def)

text \<open>
  Claim C3. The file that replaces a swap file that is too small does not always have
  the needed size. On XFS \<open>create_swap_file_with_size\<close> does not call \<open>ftruncate\<close>,
  \<open>fallocate\<close> is not called either, and \<open>try_zero_out_with_write\<close> writes the four
  bytes of its pattern at every multiple of the block size below the needed size, so
  that the file ends four bytes behind the last of these offsets. On the machine on XFS
  with 4096 bytes of memory, 12288 bytes are needed and \<open>find_swap_file\<close> reports the
  file of 8196 bytes at the well-known path; \<open>main\<close> disables and unlinks it, creates
  the file again with writes at 0, 4096 and 8192, activates it and returns 0. The file
  has 8196 bytes again, fewer than needed.
\<close>

theorem recreated_file_on_xfs_is_short:
  "swap_needed_size 4096 = Inr 12288
   \<and> find_swap_file (swaps_buffer0 vm_xfs_small) (file_contents vm_xfs_small ''/proc/swaps'')
        (stat_swap_file_name vm_xfs_small) 12288
       = Inr (Some \<lparr>capacity = 8196, path = swap_file_name\<rparr>)
   \<and> main vm_xfs_small = (vm_xfs_events, Inr 0)
   \<and> file_size_after vm_xfs_small swap_file_name 8196 (fst (main vm_xfs_small)) = 8196"
proof -
  have "find_swap_file (swaps_buffer0 vm_xfs_small) (file_contents vm_xfs_small ''/proc/swaps'')
        (stat_swap_file_name vm_xfs_small) 12288
       = Inr (Some \<lparr>capacity = 8196, path = swap_file_name\<rparr>)"
    by (simp add: vm_xfs_small_def vm_xfs_def vm_evals)
  moreover have "file_size_after vm_xfs_small swap_file_name 8196 vm_xfs_events = 8196"
    by (simp add: file_size_after_def size_step_def vm_xfs_events_def vm_xfs_small_def vm_xfs_def)
  ultimately show ?thesis
    by (simp add: xfs_needed main_vm_xfs_small)
qed



subsection \<open>Rewrite of the GRUB settings file\<close>

lemma vm_args_value:
  "vm_args = ''resume=/dev/disk/by-uuid/0a1b resume_offset=34816 no_console_suspend=1''"
  by (simp add: vm_args_def kernel_args_def decimal_34816)

lemma fgets_chunk_rest:
  "newline \<notin> set l \<Longrightarrow> length l \<le> room \<Longrightarrow> fgets_chunk room l = (l, [])"
  by (induction l arbitrary: room) auto

lemma fgets_all_rest:
  assumes "newline \<notin> set l" "length l < n" "l \<noteq> []"
  shows "fgets_all n l = [l]"
proof -
  have "fgets_chunk (n - 1) l = (l, [])"
    using assms by (intro fgets_chunk_rest) auto
  moreover from assms have "1 < n" by (cases l) auto
  ultimately show ?thesis
    using assms by (subst fgets_all.simps) simp
qed

lemma managed_block_lines:
  "managed_block vm_args = block_start @ newline # vm_args_line @ newline # block_end @ newline # []"
  by (simp add: managed_block_def vm_args_line_def)

lemma vm_chunks:
  assumes "newline \<notin> set pre" "length pre + 27 < 1024"
  shows "fgets_all 1024 (pre @ managed_block vm_args) =
     [pre @ block_start @ [newline], vm_args_line @ [newline], block_end @ [newline]]"
proof -
  have 1: "newline \<notin> set (pre @ block_start)" "length (pre @ block_start) + 1 < 1024"
    using assms by (simp_all add: block_start_def newline_def)
  have 2: "newline \<notin> set vm_args_line" "length vm_args_line + 1 < 1024"
    by (simp_all add: vm_args_line_def vm_args_value newline_def)
  have 3: "newline \<notin> set block_end" "length block_end + 1 < 1024"
    by (simp_all add: block_end_def newline_def)
  show ?thesis
    using fgets_all_line [OF 1, of "vm_args_line @ newline # block_end @ newline # []"]
      fgets_all_line [OF 2, of "block_end @ newline # []"]
      fgets_all_line [OF 3, of "[]"]
    by (simp add: managed_block_lines)
qed

lemma vm_grub_line_facts:
  "newline \<notin> set vm_grub_line" "length vm_grub_line = 14" "vm_grub_line \<noteq> []"
  by (simp_all add: vm_grub_line_def newline_def)

lemma cstr_simps:
  "cstr (vm_grub_line @ block_start @ [newline]) = vm_grub_line @ block_start @ [newline]"
  "cstr (vm_grub_line @ [newline]) = vm_grub_line @ [newline]"
  "cstr vm_grub_line = vm_grub_line"
  "cstr (block_start @ [newline]) = block_start @ [newline]"
  "cstr (vm_args_line @ [newline]) = vm_args_line @ [newline]"
  "cstr (block_end @ [newline]) = block_end @ [newline]"
  by (simp_all add: cstr_def block_start_def block_end_def newline_def NUL_def vm_args_line_def
        vm_args_value vm_grub_line_def)

lemma strstr_simps:
  "strstr (vm_grub_line @ block_start @ [newline]) block_start"
  "\<not> strstr (vm_grub_line @ [newline]) block_start"
  "\<not> strstr vm_grub_line block_start"
  "strstr (block_start @ [newline]) block_start"
  "\<not> strstr (vm_args_line @ [newline]) block_end"
  "strstr (block_end @ [newline]) block_end"
  by (simp_all add: block_start_def block_end_def newline_def vm_args_line_def
        vm_args_value vm_grub_line_def)

lemma grub_rewrite_vm_idempotent:
  "grub_rewrite vm_args (Some (vm_grub_line @ [newline]))
     = vm_grub_line @ [newline] @ managed_block vm_args"
  "grub_rewrite vm_args (Some (grub_rewrite vm_args (Some (vm_grub_line @ [newline]))))
     = grub_rewrite vm_args (Some (vm_grub_line @ [newline]))"
proof -
  have l: "fgets_all 1024 (vm_grub_line @ newline # r)
     = (vm_grub_line @ [newline]) # fgets_all 1024 r" for r
    by (rule fgets_all_line) (simp_all add: vm_grub_line_facts)
  show one: "grub_rewrite vm_args (Some (vm_grub_line @ [newline]))
     = vm_grub_line @ [newline] @ managed_block vm_args"
    using l [of "[]"] by (simp add: grub_rewrite_def strstr_simps cstr_simps)
  have "fgets_all 1024 ([] @ managed_block vm_args) =
     [[] @ block_start @ [newline], vm_args_line @ [newline], block_end @ [newline]]"
    by (rule vm_chunks) simp_all
  with l [of "managed_block vm_args"]
  have "grub_rewrite vm_args (Some (vm_grub_line @ [newline] @ managed_block vm_args))
      = vm_grub_line @ [newline] @ managed_block vm_args"
    by (simp add: grub_rewrite_def strstr_simps cstr_simps)
  with one show "grub_rewrite vm_args
       (Some (grub_rewrite vm_args (Some (vm_grub_line @ [newline]))))
     = grub_rewrite vm_args (Some (vm_grub_line @ [newline]))"
    by simp
qed

text \<open>
  Claim C5. The rewrite is not idempotent on every prior content. When the last line of
  the settings file does not end in a newline, the first rewrite appends the managed
  block right behind it, so that the line and \<open># az-hibernate-agent:start\<close> are one
  line of the new file; the second rewrite takes that line for the start of the block
  and drops it. On the file \<open>GRUB_TIMEOUT=5\<close> the second rewrite leaves the managed
  block alone, which is not what the first rewrite wrote. On the same line followed by a
  newline the two rewrites agree: \<open>grub_rewrite_vm_idempotent\<close>.
\<close>

theorem grub_rewrite_glues_last_line:
  "grub_rewrite vm_args (Some vm_grub_line) = vm_grub_line @ managed_block vm_args
   \<and> grub_rewrite vm_args (Some (grub_rewrite vm_args (Some vm_grub_line)))
       = managed_block vm_args
   \<and> grub_rewrite vm_args (Some (grub_rewrite vm_args (Some vm_grub_line)))
       \<noteq> grub_rewrite vm_args (Some vm_grub_line)"
proof -
  have "fgets_all 1024 vm_grub_line = [vm_grub_line]"
    by (rule fgets_all_rest) (simp_all add: vm_grub_line_facts)
  then have one: "grub_rewrite vm_args (Some vm_grub_line) = vm_grub_line @ managed_block vm_args"
    by (simp add: grub_rewrite_def strstr_simps cstr_simps)
  have "fgets_all 1024 (vm_grub_line @ managed_block vm_args) =
     [vm_grub_line @ block_start @ [newline], vm_args_line @ [newline], block_end @ [newline]]"
    by (rule vm_chunks) (simp_all add: vm_grub_line_facts)
  then have two: "grub_rewrite vm_args (Some (vm_grub_line @ managed_block vm_args))
      = managed_block vm_args"
    by (simp add: grub_rewrite_def strstr_simps cstr_simps)
  from one two show ?thesis by (simp add: vm_grub_line_facts)
qed


end
